theory Spec2Isabelle
  imports Complex_Main "HOL-Library.Char_ord" "HOL-Library.List_Lexorder"
begin

section \<open>Time values\<close>

text \<open>
  A \<open>time.Time\<close> is modelled by its instant, in nanoseconds since the Unix epoch, as an
  unbounded integer. A \<open>time.Duration\<close> is an int64 count of nanoseconds:
  \<open>Time.Sub\<close> saturates at the two ends of that range, as the Go library documents.
  Readings of the wall clock (\<open>time.Now()\<close>) are arguments of the operations that take
  them, one argument per call of \<open>time.Now()\<close> in the source.
\<close>

type_synonym Time = int
type_synonym Duration = int

definition minDuration :: Duration where
  "minDuration = - (2 ^ 63)"

definition maxDuration :: Duration where
  "maxDuration = 2 ^ 63 - 1"

definition Second :: Duration where
  "Second = 1000000000"

definition Hour :: Duration where
  "Hour = 3600 * Second"

definition Sub :: "Time \<Rightarrow> Time \<Rightarrow> Duration" where
  "Sub t u =
     (if t - u > maxDuration then maxDuration
      else if t - u < minDuration then minDuration
      else t - u)"

text \<open>
  \<open>d.Seconds()\<close> is computed in float64: \<open>float64(sec) + float64(nsec)/1e9\<close> with
  \<open>sec = d / Second\<close> and \<open>nsec = d % Second\<close> (both truncated toward zero, so
  \<open>nsec\<close> has the sign of \<open>d\<close>). Every conversion, the division and the sum round
  to the nearest binary64 number, ties to the even significand; \<open>int64(_)\<close> then
  truncates toward zero. The binary64 numbers are the \<open>m * 2 ^ e\<close> with a significand
  \<open>m\<close> below \<open>2 ^ 53\<close> and an exponent \<open>e\<close> from \<open>- 1074\<close> to \<open>971\<close>;
  \<open>float64_exponent\<close> finds the least exponent at which the significand fits. The
  values that occur here are all below \<open>2 ^ 63\<close>, far from the overflow of the format.
\<close>

definition round_half_even :: "rat \<Rightarrow> int" where
  "round_half_even t =
     (let f = \<lfloor>t\<rfloor>; r = t - of_int f
      in if r < 1 / 2 then f
         else if 1 / 2 < r then f + 1
         else if even f then f else f + 1)"

function float64_exponent :: "rat \<Rightarrow> int \<Rightarrow> int" where
  "float64_exponent x e =
     (if 971 \<le> e \<or> x < power_int 2 (e + 53) then e else float64_exponent x (e + 1))"
  by pat_completeness auto
termination
  by (relation "measure (\<lambda>(x, e). nat (971 - e))") auto

declare float64_exponent.simps [simp del]

definition float64 :: "rat \<Rightarrow> rat" where
  "float64 x =
     (if x = 0 then 0
      else
        (let e = float64_exponent \<bar>x\<bar> (- 1074);
             m = round_half_even (\<bar>x\<bar> / power_int 2 e)
         in sgn x * of_int m * power_int 2 e))"

definition Seconds :: "Duration \<Rightarrow> rat" where
  "Seconds d =
     (let sec = (if 0 \<le> d then d div Second else - ((- d) div Second));
          nsec = d - sec * Second
      in float64 (float64 (of_int sec) + float64 (float64 (of_int nsec) / 1000000000)))"

definition int64_of_float64 :: "rat \<Rightarrow> int" where
  "int64_of_float64 x = (if 0 \<le> x then \<lfloor>x\<rfloor> else \<lceil>x\<rceil>)"

definition Seconds_int64 :: "Duration \<Rightarrow> int" where
  "Seconds_int64 d = int64_of_float64 (Seconds d)"

section \<open>models.TimeSlot\<close>

record TimeSlot =
  ID :: int
  TaskName :: string
  StartTime :: Time
  EndTime :: "Time option"
  DurationSeconds :: int

definition IsActive :: "TimeSlot \<Rightarrow> bool" where
  "IsActive ts = (EndTime ts = None)"

section \<open>The record store\<close>

text \<open>
  The table \<open>time_slots\<close> is the list of its rows in insertion order; the AUTOINCREMENT
  counter is \<open>sqlite_sequence\<close>. The storage engine is outside the repository: each SQL
  statement is atomic and either fails, leaving the table as it was, or takes effect.
  Which statements fail is an input: \<open>faults\<close> lists, for the statements still to come,
  whether each one fails (none fails once the list is used up). In the queries of a
  single row the scan of the row is part of the statement: a scan that fails is a failure
  of the statement. \<open>LastInsertId\<close> after an insert that succeeded does not fail in the
  SQLite driver; it has no fault of its own. A row is the slot that a scan of it gives:
  its times are the instants that were written. The texts that the driver writes for
  them, which the queries of a day compare, come with those queries below.
\<close>

datatype sql_error = ErrNoRows | ErrEngine | ErrScan

datatype error = Errorf string sql_error | ParseError string

record Database =
  time_slots :: "TimeSlot list"
  sqlite_sequence :: int
  faults :: "bool list"

definition engine_fault :: "Database \<Rightarrow> bool \<times> Database" where
  "engine_fault d =
     (case faults d of
        [] \<Rightarrow> (False, d)
      | f # fs \<Rightarrow> (f, d\<lparr>faults := fs\<rparr>))"

text \<open>\<open>INSERT INTO time_slots (task_name, start_time) VALUES (?, ?)\<close>, giving the new id.\<close>

definition sql_insert :: "Database \<Rightarrow> string \<Rightarrow> Time \<Rightarrow> (sql_error + int) \<times> Database" where
  "sql_insert d taskName startTime =
     (case engine_fault d of
        (True, d1) \<Rightarrow> (Inl ErrEngine, d1)
      | (False, d1) \<Rightarrow>
          (let slot_id = sqlite_sequence d1 + 1
           in (Inr slot_id,
               d1\<lparr>time_slots := time_slots d1 @
                     [\<lparr>ID = slot_id, TaskName = taskName, StartTime = startTime,
                       EndTime = None, DurationSeconds = 0\<rparr>],
                  sqlite_sequence := slot_id\<rparr>)))"

text \<open>\<open>SELECT start_time FROM time_slots WHERE id = ?\<close>, scanned as one row.\<close>

definition sql_select_start_time :: "Database \<Rightarrow> int \<Rightarrow> (sql_error + Time) \<times> Database" where
  "sql_select_start_time d slot_id =
     (case engine_fault d of
        (True, d1) \<Rightarrow> (Inl ErrEngine, d1)
      | (False, d1) \<Rightarrow>
          (case find (\<lambda>r. ID r = slot_id) (time_slots d1) of
             None \<Rightarrow> (Inl ErrNoRows, d1)
           | Some r \<Rightarrow> (Inr (StartTime r), d1)))"

text \<open>\<open>UPDATE time_slots SET ... WHERE id = ?\<close>: \<open>upd\<close> is the SET clause.\<close>

definition sql_update :: "Database \<Rightarrow> (TimeSlot \<Rightarrow> TimeSlot) \<Rightarrow> int \<Rightarrow> (sql_error + unit) \<times> Database" where
  "sql_update d upd slot_id =
     (case engine_fault d of
        (True, d1) \<Rightarrow> (Inl ErrEngine, d1)
      | (False, d1) \<Rightarrow>
          (Inr (),
           d1\<lparr>time_slots := map (\<lambda>r. if ID r = slot_id then upd r else r) (time_slots d1)\<rparr>))"

text \<open>\<open>SELECT ... WHERE\<close> a condition, in table order.\<close>

definition sql_select :: "Database \<Rightarrow> (TimeSlot \<Rightarrow> bool) \<Rightarrow> (sql_error + TimeSlot list) \<times> Database" where
  "sql_select d cond =
     (case engine_fault d of
        (True, d1) \<Rightarrow> (Inl ErrEngine, d1)
      | (False, d1) \<Rightarrow> (Inr (filter cond (time_slots d1)), d1))"

text \<open>
  \<open>WHERE end_time IS NULL ORDER BY start_time DESC LIMIT 1\<close>. With one active row,
  that row. With several, the model takes a row of the greatest instant, the last of
  them in the table; the store orders the texts of the column, which need not be the
  order of the instants.
\<close>

fun latest :: "TimeSlot list \<Rightarrow> TimeSlot option" where
  "latest [] = None"
| "latest (r # rs) =
     (case latest rs of
        None \<Rightarrow> Some r
      | Some m \<Rightarrow> if StartTime r \<le> StartTime m then Some m else Some r)"

definition CreateTimeSlot :: "Database \<Rightarrow> string \<Rightarrow> Time \<Rightarrow> (error + TimeSlot) \<times> Database" where
  "CreateTimeSlot d taskName startTime =
     (case sql_insert d taskName startTime of
        (Inl err, d1) \<Rightarrow> (Inl (Errorf ''failed to create time slot'' err), d1)
      | (Inr slot_id, d1) \<Rightarrow>
          (Inr \<lparr>ID = slot_id, TaskName = taskName, StartTime = startTime,
                EndTime = None, DurationSeconds = 0\<rparr>, d1))"

definition GetActiveTimeSlot :: "Database \<Rightarrow> (error + TimeSlot option) \<times> Database" where
  "GetActiveTimeSlot d =
     (case sql_select d (\<lambda>r. EndTime r = None) of
        (Inl err, d1) \<Rightarrow> (Inl (Errorf ''failed to get active time slot'' err), d1)
      | (Inr rs, d1) \<Rightarrow> (Inr (latest rs), d1))"

definition StopTimeSlot :: "Database \<Rightarrow> int \<Rightarrow> Time \<Rightarrow> (error + unit) \<times> Database" where
  "StopTimeSlot d slot_id endTime =
     (case sql_select_start_time d slot_id of
        (Inl err, d1) \<Rightarrow> (Inl (Errorf ''failed to get start time'' err), d1)
      | (Inr startTime, d1) \<Rightarrow>
          (let durationSeconds = Seconds_int64 (Sub endTime startTime)
           in case sql_update d1
                     (\<lambda>r. r\<lparr>EndTime := Some endTime, DurationSeconds := durationSeconds\<rparr>) slot_id of
                (Inl err, d2) \<Rightarrow> (Inl (Errorf ''failed to stop time slot'' err), d2)
              | (Inr u, d2) \<Rightarrow> (Inr (), d2)))"

text \<open>
  The two queries of a day give the store two time values, the midnight that starts the
  day of the date and the instant 24 hours later, and the store compares the
  \<open>start_time\<close> column with them. The SQLite driver writes a time value into the store
  as a text and the store compares texts byte by byte; \<open>time.Date\<close> belongs to the Go
  library. Both are outside the repository, and what they do is a parameter of the two
  queries:
  \<^item> \<open>midnight\<close> is
    \<open>time.Date(date.Year(), date.Month(), date.Day(), 0, 0, 0, 0, date.Location())\<close>
    as a function of the date;
  \<^item> \<open>bound_text\<close> is the text the driver binds for a time value that is an argument
    of a query;
  \<^item> \<open>stored_text\<close> is the text in the \<open>start_time\<close> column of a row;
  \<^item> \<open>scans\<close> tells whether \<open>rows.Scan\<close> reads the times of a row back.
  Texts are ordered as the store orders them: byte by byte, a proper prefix first.
\<close>

record Library =
  midnight :: "Time \<Rightarrow> Time"
  bound_text :: "Time \<Rightarrow> string"
  stored_text :: "TimeSlot \<Rightarrow> string"
  scans :: "TimeSlot \<Rightarrow> bool"

text \<open>\<open>WHERE start_time >= ? AND start_time < ?\<close> with \<open>startOfDay\<close> and \<open>endOfDay\<close>.\<close>

definition in_day :: "Library \<Rightarrow> Time \<Rightarrow> TimeSlot \<Rightarrow> bool" where
  "in_day lib date r =
     (let startOfDay = midnight lib date;
          endOfDay = startOfDay + 24 * Hour
      in bound_text lib startOfDay \<le> stored_text lib r \<and>
         stored_text lib r < bound_text lib endOfDay)"

definition GetTimeSlotsByDate :: "Library \<Rightarrow> Database \<Rightarrow> Time \<Rightarrow> (error + TimeSlot list) \<times> Database" where
  "GetTimeSlotsByDate lib d date =
     (case sql_select d (in_day lib date) of
        (Inl err, d1) \<Rightarrow> (Inl (Errorf ''failed to query time slots'' err), d1)
      | (Inr rs, d1) \<Rightarrow>
          (let slots = sort_key (stored_text lib) rs
           in if list_all (scans lib) slots then (Inr slots, d1)
              else (Inl (Errorf ''failed to scan time slot'' ErrScan), d1)))"




definition UpdateTimeSlot :: "Database \<Rightarrow> int \<Rightarrow> string \<Rightarrow> Time \<Rightarrow> Time option \<Rightarrow> (error + unit) \<times> Database" where
  "UpdateTimeSlot d slot_id taskName startTime endTime =
     (let durationSeconds =
            (case endTime of
               None \<Rightarrow> 0
             | Some e \<Rightarrow> Seconds_int64 (Sub e startTime))
      in case sql_update d
                (\<lambda>r. r\<lparr>TaskName := taskName, StartTime := startTime, EndTime := endTime,
                       DurationSeconds := durationSeconds\<rparr>) slot_id of
           (Inl err, d1) \<Rightarrow> (Inl (Errorf ''failed to update time slot'' err), d1)
         | (Inr u, d1) \<Rightarrow> (Inr (), d1))"

section \<open>The timer\<close>

text \<open>
  The operations of \<open>Timer\<close> run under its lock, one at a time: each is a function from
  the state before to the state after. \<open>notifyChannel\<close> is a channel of capacity 1; a
  send on it never blocks and is dropped when the channel is full.
\<close>

record Timer =
  activeSlot :: "TimeSlot option"
  isRunning :: bool
  startTime :: Time
  notifyChannel :: "bool list"

definition zeroTime :: Time where
  "zeroTime = - 62135596800 * Second"

definition NewTimer :: Timer where
  "NewTimer = \<lparr>activeSlot = None, isRunning = False, startTime = zeroTime, notifyChannel = []\<rparr>"

definition try_send :: "bool list \<Rightarrow> bool \<Rightarrow> bool list" where
  "try_send ch v = (if length ch < 1 then ch @ [v] else ch)"

definition Start :: "Timer \<Rightarrow> string \<Rightarrow> Database \<Rightarrow> Time \<Rightarrow> Time \<Rightarrow> (error + TimeSlot option) \<times> Timer \<times> Database" where
  "Start t taskName db now1 now2 =
     (case (case activeSlot t of
              None \<Rightarrow> (Inr (), db)
            | Some s \<Rightarrow> if IsActive s then StopTimeSlot db (ID s) now1 else (Inr (), db)) of
        (Inl err, db1) \<Rightarrow> (Inl err, t, db1)
      | (Inr u, db1) \<Rightarrow>
          (case CreateTimeSlot db1 taskName now2 of
             (Inl err, db2) \<Rightarrow> (Inl err, t, db2)
           | (Inr slot, db2) \<Rightarrow>
               (Inr (Some slot),
                t\<lparr>activeSlot := Some slot, isRunning := True, startTime := now2,
                  notifyChannel := try_send (notifyChannel t) True\<rparr>,
                db2)))"

definition Stop :: "Timer \<Rightarrow> Database \<Rightarrow> Time \<Rightarrow> (error + TimeSlot option) \<times> Timer \<times> Database" where
  "Stop t db now =
     (case activeSlot t of
        None \<Rightarrow> (Inr None, t, db)
      | Some s \<Rightarrow>
          if \<not> IsActive s then (Inr None, t, db)
          else
            (case StopTimeSlot db (ID s) now of
               (Inl err, db1) \<Rightarrow> (Inl err, t, db1)
             | (Inr u, db1) \<Rightarrow>
                 (Inr (Some s),
                  t\<lparr>activeSlot := None, isRunning := False,
                    notifyChannel := try_send (notifyChannel t) False\<rparr>,
                  db1)))"

definition GetElapsedTime :: "Timer \<Rightarrow> Time \<Rightarrow> Duration" where
  "GetElapsedTime t now =
     (if \<not> isRunning t \<or> activeSlot t = None then 0 else Sub now (startTime t))"

definition LoadActiveSlot :: "Timer \<Rightarrow> Database \<Rightarrow> (error + unit) \<times> Timer \<times> Database" where
  "LoadActiveSlot t db =
     (case GetActiveTimeSlot db of
        (Inl err, db1) \<Rightarrow> (Inl err, t, db1)
      | (Inr (Some slot), db1) \<Rightarrow>
          (Inr (), t\<lparr>activeSlot := Some slot, isRunning := True, startTime := StartTime slot\<rparr>, db1)
      | (Inr None, db1) \<Rightarrow>
          (Inr (), t\<lparr>activeSlot := None, isRunning := False\<rparr>, db1))"

section \<open>The application\<close>

record App =
  database :: Database
  timer :: Timer

definition StartTimer :: "App \<Rightarrow> string \<Rightarrow> Time \<Rightarrow> Time \<Rightarrow> (error + TimeSlot option) \<times> App" where
  "StartTimer a taskName now1 now2 =
     (if taskName = [] then (Inr None, a)
      else
        (case Start (timer a) taskName (database a) now1 now2 of
           (res, t1, db1) \<Rightarrow> (res, a\<lparr>database := db1, timer := t1\<rparr>)))"

definition StopTimer :: "App \<Rightarrow> Time \<Rightarrow> (error + TimeSlot option) \<times> App" where
  "StopTimer a now =
     (case Stop (timer a) (database a) now of
        (res, t1, db1) \<Rightarrow> (res, a\<lparr>database := db1, timer := t1\<rparr>))"

definition App_GetElapsedTime :: "App \<Rightarrow> Time \<Rightarrow> int" where
  "App_GetElapsedTime a now = Seconds_int64 (GetElapsedTime (timer a) now)"

text \<open>
  \<open>App.UpdateTimeSlot\<close> parses its two time arguments with
  \<open>time.Parse(time.RFC3339, _)\<close>, a function of the Go library taken here as the
  parameter \<open>parse\<close>.
\<close>

definition App_UpdateTimeSlot :: "(string \<Rightarrow> error + Time) \<Rightarrow> App \<Rightarrow> int \<Rightarrow> string \<Rightarrow> string \<Rightarrow> string \<Rightarrow> (error + unit) \<times> App" where
  "App_UpdateTimeSlot parse a slot_id taskName startTimeStr endTimeStr =
     (case parse startTimeStr of
        Inl err \<Rightarrow> (Inl err, a)
      | Inr start_time \<Rightarrow>
          (case (if endTimeStr \<noteq> []
                 then (case parse endTimeStr of
                         Inl err \<Rightarrow> Inl err
                       | Inr et \<Rightarrow> Inr (Some et))
                 else Inr None) of
             Inl err \<Rightarrow> (Inl err, a)
           | Inr end_time \<Rightarrow>
               (case UpdateTimeSlot (database a) slot_id taskName start_time end_time of
                  (res, db1) \<Rightarrow> (res, a\<lparr>database := db1\<rparr>))))"

section \<open>Sequences of calls\<close>

text \<open>
  A call of \<open>Timer.Start\<close> carries the task name and the two clock readings it takes; a
  call of \<open>Timer.Stop\<close> carries its one clock reading. A sequence of calls is run from a
  state of the timer and the store, whatever each call returns.
\<close>

datatype call = StartCall string Time Time | StopCall Time

fun exec_call :: "Timer \<times> Database \<Rightarrow> call \<Rightarrow> Timer \<times> Database" where
  "exec_call (t, db) (StartCall taskName now1 now2) = snd (Start t taskName db now1 now2)"
| "exec_call (t, db) (StopCall now) = snd (Stop t db now)"

definition exec_calls :: "Timer \<times> Database \<Rightarrow> call list \<Rightarrow> Timer \<times> Database" where
  "exec_calls st cs = foldl exec_call st cs"

definition active_slots :: "Database \<Rightarrow> TimeSlot list" where
  "active_slots db = filter IsActive (time_slots db)"

text \<open>The timer tracks the store: every active row is the slot the timer holds as active.\<close>

definition timer_tracks :: "Timer \<Rightarrow> Database \<Rightarrow> bool" where
  "timer_tracks t db =
     list_all (\<lambda>r. case activeSlot t of
                      None \<Rightarrow> False
                    | Some s \<Rightarrow> IsActive s \<and> ID s = ID r) (active_slots db)"

definition one_active :: "Timer \<Rightarrow> Database \<Rightarrow> bool" where
  "one_active t db = (length (active_slots db) \<le> 1 \<and> timer_tracks t db)"

section \<open>Statements of the store\<close>

lemma engine_fault_keeps:
  "engine_fault d = (f, d1) \<Longrightarrow>
     time_slots d1 = time_slots d \<and> sqlite_sequence d1 = sqlite_sequence d"
  by (auto simp: engine_fault_def split: list.splits)

lemma StopTimeSlot_Inl:
  "StopTimeSlot d i e = (Inl err, d1) \<Longrightarrow>
     time_slots d1 = time_slots d \<and> sqlite_sequence d1 = sqlite_sequence d"
  by (auto simp: StopTimeSlot_def sql_select_start_time_def sql_update_def Let_def
           split: prod.splits bool.splits option.splits sum.splits
           dest!: engine_fault_keeps)

lemma StopTimeSlot_Inr:
  "StopTimeSlot d i e = (Inr u, d1) \<Longrightarrow>
     \<exists>r. find (\<lambda>r. ID r = i) (time_slots d) = Some r \<and>
         time_slots d1 =
           map (\<lambda>x. if ID x = i
                     then x\<lparr>EndTime := Some e,
                            DurationSeconds := Seconds_int64 (Sub e (StartTime r))\<rparr>
                     else x) (time_slots d) \<and>
         sqlite_sequence d1 = sqlite_sequence d"
  by (auto simp: StopTimeSlot_def sql_select_start_time_def sql_update_def Let_def
           split: prod.splits bool.splits option.splits sum.splits
           dest!: engine_fault_keeps)

lemma CreateTimeSlot_Inl:
  "CreateTimeSlot d n s = (Inl err, d1) \<Longrightarrow>
     time_slots d1 = time_slots d \<and> sqlite_sequence d1 = sqlite_sequence d"
  by (auto simp: CreateTimeSlot_def sql_insert_def Let_def
           split: prod.splits bool.splits sum.splits dest!: engine_fault_keeps)

lemma CreateTimeSlot_Inr:
  "CreateTimeSlot d n s = (Inr slot, d1) \<Longrightarrow>
     slot = \<lparr>ID = sqlite_sequence d + 1, TaskName = n, StartTime = s,
             EndTime = None, DurationSeconds = 0\<rparr> \<and>
     time_slots d1 = time_slots d @ [slot] \<and>
     sqlite_sequence d1 = sqlite_sequence d + 1"
  by (auto simp: CreateTimeSlot_def sql_insert_def Let_def
           split: prod.splits bool.splits sum.splits dest!: engine_fault_keeps)

section \<open>At most one active slot\<close>

lemma closed_all:
  "\<forall>r\<in>set rs. IsActive r \<longrightarrow> ID r = i \<Longrightarrow>
   filter IsActive
     (map (\<lambda>x. if ID x = i then x\<lparr>EndTime := Some e, DurationSeconds := k\<rparr> else x) rs) = []"
  by (induction rs) (auto simp: IsActive_def)

lemma StopTimeSlot_closes:
  assumes "StopTimeSlot d i e = (Inr u, d1)"
    and "\<forall>r\<in>set (active_slots d). ID r = i"
  shows "active_slots d1 = []"
proof -
  have ids: "\<forall>r\<in>set (time_slots d). IsActive r \<longrightarrow> ID r = i"
    using assms(2) by (simp add: active_slots_def)
  from StopTimeSlot_Inr [OF assms(1)] show ?thesis
  proof (elim exE conjE)
    fix r
    assume "time_slots d1 =
           map (\<lambda>x. if ID x = i
                     then x\<lparr>EndTime := Some e,
                            DurationSeconds := Seconds_int64 (Sub e (StartTime r))\<rparr>
                     else x) (time_slots d)"
    then show ?thesis using closed_all [OF ids] by (simp add: active_slots_def)
  qed
qed

lemma StopTimeSlot_fail_active:
  "StopTimeSlot d i e = (Inl err, d1) \<Longrightarrow> active_slots d1 = active_slots d"
  by (simp add: active_slots_def StopTimeSlot_Inl)

lemma Create_fail_active:
  "CreateTimeSlot d n s = (Inl err, d1) \<Longrightarrow> active_slots d1 = active_slots d"
  by (simp add: active_slots_def CreateTimeSlot_Inl)

lemma Create_active:
  "CreateTimeSlot d n s = (Inr slot, d1) \<Longrightarrow>
     active_slots d1 = active_slots d @ [slot] \<and> IsActive slot"
  by (auto simp: active_slots_def IsActive_def dest!: CreateTimeSlot_Inr)

lemma untracked_none:
  "timer_tracks t db \<Longrightarrow>
   activeSlot t = None \<or> (\<exists>s. activeSlot t = Some s \<and> \<not> IsActive s) \<Longrightarrow>
   active_slots db = []"
  by (cases "active_slots db") (auto simp: timer_tracks_def)

lemma tracked_ids:
  "timer_tracks t db \<Longrightarrow> activeSlot t = Some s \<Longrightarrow>
   \<forall>r\<in>set (active_slots db). ID r = ID s"
  by (auto simp: timer_tracks_def list_all_iff)

lemma Start_one_active:
  assumes "one_active t db" and "Start t n db now1 now2 = (res, t', db')"
  shows "one_active t' db' \<and> (\<forall>slot. res = Inr (Some slot) \<longrightarrow> active_slots db' = [slot])"
proof -
  define pre where "pre = (case activeSlot t of
              None \<Rightarrow> (Inr (), db)
            | Some s \<Rightarrow> if IsActive s then StopTimeSlot db (ID s) now1 else (Inr (), db))"
  obtain r1 db1 where pre: "pre = (r1, db1)" by (cases pre)
  show ?thesis
  proof (cases r1)
    case (Inl err)
    then have "active_slots db1 = active_slots db"
      using pre unfolding pre_def
      by (auto split: option.splits if_splits dest: StopTimeSlot_fail_active)
    moreover have "t' = t" "db' = db1" "res = Inl err"
      using assms(2) pre Inl unfolding Start_def pre_def [symmetric] by auto
    ultimately show ?thesis using assms(1) by (simp add: one_active_def timer_tracks_def)
  next
    case (Inr u)
    have empty: "active_slots db1 = []"
    proof (cases "activeSlot t")
      case None
      then show ?thesis using pre assms(1) untracked_none [of t db]
        unfolding pre_def one_active_def by auto
    next
      case (Some s)
      show ?thesis
      proof (cases "IsActive s")
        case True
        then have "StopTimeSlot db (ID s) now1 = (Inr u, db1)"
          using pre Some Inr unfolding pre_def by simp
        then show ?thesis
          using StopTimeSlot_closes tracked_ids [OF _ Some] assms(1)
          unfolding one_active_def by blast
      next
        case False
        then show ?thesis using pre Some assms(1) untracked_none [of t db]
          unfolding pre_def one_active_def by auto
      qed
    qed
    obtain r2 db2 where cr: "CreateTimeSlot db1 n now2 = (r2, db2)"
      by (cases "CreateTimeSlot db1 n now2")
    show ?thesis
    proof (cases r2)
      case (Inl err)
      then have "active_slots db2 = []" using Create_fail_active cr empty by simp
      moreover have "db' = db2" "res = Inl err"
        using assms(2) pre Inr cr Inl unfolding Start_def pre_def [symmetric] by auto
      ultimately show ?thesis by (simp add: one_active_def timer_tracks_def)
    next
      case (Inr slot)
      then have a: "active_slots db2 = [slot]" "IsActive slot"
        using Create_active cr empty by auto
      moreover have "db' = db2" "res = Inr (Some slot)" "activeSlot t' = Some slot"
        using assms(2) pre \<open>r1 = Inr u\<close> cr Inr unfolding Start_def pre_def [symmetric] by auto
      ultimately show ?thesis by (simp add: one_active_def timer_tracks_def)
    qed
  qed
qed

lemma Stop_one_active:
  assumes "one_active t db" and "Stop t db now = (res, t', db')"
  shows "one_active t' db'"
proof (cases "activeSlot t")
  case None
  then show ?thesis using assms by (simp add: Stop_def)
next
  case (Some s)
  show ?thesis
  proof (cases "IsActive s")
    case False
    then show ?thesis using assms Some by (simp add: Stop_def)
  next
    case True
    obtain r1 db1 where st: "StopTimeSlot db (ID s) now = (r1, db1)"
      by (cases "StopTimeSlot db (ID s) now")
    show ?thesis
    proof (cases r1)
      case (Inl err)
      then have "active_slots db1 = active_slots db" using st StopTimeSlot_fail_active by simp
      moreover have "t' = t" "db' = db1" using assms(2) Some True st Inl by (auto simp: Stop_def)
      ultimately show ?thesis using assms(1) by (simp add: one_active_def timer_tracks_def)
    next
      case (Inr u)
      then have "active_slots db1 = []"
        using st StopTimeSlot_closes tracked_ids [OF _ Some] assms(1)
        unfolding one_active_def by blast
      moreover have "db' = db1" using assms(2) Some True st Inr by (auto simp: Stop_def)
      ultimately show ?thesis by (simp add: one_active_def timer_tracks_def)
    qed
  qed
qed

lemma exec_call_one_active:
  "one_active (fst st) (snd st) \<Longrightarrow>
     one_active (fst (exec_call st c)) (snd (exec_call st c))"
proof (cases st; cases c)
  fix t db n now1 now2
  assume a: "one_active (fst st) (snd st)" "st = (t, db)" "c = StartCall n now1 now2"
  obtain res t' db' where "Start t n db now1 now2 = (res, t', db')"
    by (cases "Start t n db now1 now2")
  then show ?thesis using a Start_one_active by fastforce
next
  fix t db now
  assume a: "one_active (fst st) (snd st)" "st = (t, db)" "c = StopCall now"
  obtain res t' db' where "Stop t db now = (res, t', db')"
    by (cases "Stop t db now")
  then show ?thesis using a Stop_one_active by fastforce
qed

lemma exec_calls_one_active:
  "one_active (fst st) (snd st) \<Longrightarrow>
     one_active (fst (exec_calls st cs)) (snd (exec_calls st cs))"
  unfolding exec_calls_def
proof (induction cs arbitrary: st)
  case Nil
  then show ?case by simp
next
  case (Cons c cs)
  from exec_call_one_active [OF Cons.prems]
  have "one_active (fst (exec_call st c)) (snd (exec_call st c))" .
  from Cons.IH [OF this] show ?case by simp
qed

text \<open>\<open>NewApp\<close> runs \<open>LoadActiveSlot\<close> on a new timer: the timer then tracks the store.\<close>

lemma LoadActiveSlot_tracks:
  assumes "length (active_slots db) \<le> 1"
    and "LoadActiveSlot t db = (Inr u, t', db')"
  shows "one_active t' db'"
proof -
  obtain f d1 where ef: "engine_fault db = (f, d1)" by (cases "engine_fault db")
  have ts: "time_slots d1 = time_slots db" using engine_fault_keeps [OF ef] by simp
  have sel: "filter (\<lambda>r. EndTime r = None) (time_slots d1) = active_slots db"
    by (simp add: active_slots_def ts IsActive_def [abs_def])
  have f: "f = False"
    using assms(2) ef
    by (cases f) (simp_all add: LoadActiveSlot_def GetActiveTimeSlot_def sql_select_def)
  have get: "GetActiveTimeSlot db = (Inr (latest (active_slots db)), d1)"
    by (simp add: GetActiveTimeSlot_def sql_select_def ef f sel)
  have act: "active_slots db' = active_slots db" and
    slot: "activeSlot t' = latest (active_slots db)"
    using assms(2) get ts
    by (auto simp: LoadActiveSlot_def active_slots_def split: option.splits)
  show ?thesis
  proof (cases "active_slots db")
    case Nil
    then show ?thesis using act by (simp add: one_active_def timer_tracks_def)
  next
    case (Cons r rs)
    with assms(1) have rs: "rs = []" by simp
    have "r \<in> set (filter IsActive (time_slots db))"
      using Cons by (simp add: active_slots_def)
    then have "IsActive r" by simp
    then show ?thesis using act slot Cons rs
      by (simp add: one_active_def timer_tracks_def)
  qed
qed

text \<open>
  Claim C1, as the code has it. From a state in which at most one slot is active and the
  timer tracks the store (every active row is the slot the timer holds, as after
  \<open>LoadActiveSlot\<close>), after every prefix of every sequence of \<open>Start\<close> and
  \<open>Stop\<close> calls, with any clock readings and any storage faults, at most one slot of
  the store is active; and a \<open>Start\<close> that succeeds there leaves the slot it created
  as the only active one, the slot the timer held having been closed first.
\<close>

theorem at_most_one_active:
  assumes "length (active_slots db) \<le> 1" and "timer_tracks t db"
  shows "length (active_slots (snd (exec_calls (t, db) (take k cs)))) \<le> 1 \<and>
         (\<forall>taskName now1 now2 slot t' db'.
            Start (fst (exec_calls (t, db) (take k cs))) taskName
                  (snd (exec_calls (t, db) (take k cs))) now1 now2 =
              (Inr (Some slot), t', db') \<longrightarrow>
            active_slots db' = [slot])"
proof -
  have inv: "one_active (fst (exec_calls (t, db) (take k cs)))
                        (snd (exec_calls (t, db) (take k cs)))"
    using exec_calls_one_active [of "(t, db)" "take k cs"] assms
    by (simp add: one_active_def)
  then have "length (active_slots (snd (exec_calls (t, db) (take k cs)))) \<le> 1"
    by (simp add: one_active_def)
  moreover have "\<forall>taskName now1 now2 slot t' db'.
            Start (fst (exec_calls (t, db) (take k cs))) taskName
                  (snd (exec_calls (t, db) (take k cs))) now1 now2 =
              (Inr (Some slot), t', db') \<longrightarrow>
            active_slots db' = [slot]"
    using Start_one_active [OF inv] by blast
  ultimately show ?thesis by blast
qed

theorem at_most_one_active_witness:
  "length (active_slots
      \<lparr>time_slots = [\<lparr>ID = 1, TaskName = ''a'', StartTime = 0, EndTime = None,
                       DurationSeconds = 0\<rparr>],
       sqlite_sequence = 1, faults = [False, True]\<rparr>) \<le> 1 \<and>
   timer_tracks
      \<lparr>activeSlot = Some \<lparr>ID = 1, TaskName = ''a'', StartTime = 0, EndTime = None,
                            DurationSeconds = 0\<rparr>,
       isRunning = True, startTime = 0, notifyChannel = []\<rparr>
      \<lparr>time_slots = [\<lparr>ID = 1, TaskName = ''a'', StartTime = 0, EndTime = None,
                       DurationSeconds = 0\<rparr>],
       sqlite_sequence = 1, faults = [False, True]\<rparr> \<and>
   length (active_slots (snd (exec_calls
      (\<lparr>activeSlot = Some \<lparr>ID = 1, TaskName = ''a'', StartTime = 0, EndTime = None,
                             DurationSeconds = 0\<rparr>,
        isRunning = True, startTime = 0, notifyChannel = []\<rparr>,
       \<lparr>time_slots = [\<lparr>ID = 1, TaskName = ''a'', StartTime = 0, EndTime = None,
                       DurationSeconds = 0\<rparr>],
       sqlite_sequence = 1, faults = [False, True]\<rparr>)
      (take 3 [StartCall ''b'' 5 6, StartCall ''c'' 7 8, StopCall 9,
               StartCall ''d'' 10 11])))) \<le> 1"
proof -
  have h1: "length (active_slots
      \<lparr>time_slots = [\<lparr>ID = 1, TaskName = ''a'', StartTime = 0, EndTime = None,
                       DurationSeconds = 0\<rparr>],
       sqlite_sequence = 1, faults = [False, True]\<rparr>) \<le> 1"
    by (simp add: active_slots_def)
  have h2: "timer_tracks
      \<lparr>activeSlot = Some \<lparr>ID = 1, TaskName = ''a'', StartTime = 0, EndTime = None,
                            DurationSeconds = 0\<rparr>,
       isRunning = True, startTime = 0, notifyChannel = []\<rparr>
      \<lparr>time_slots = [\<lparr>ID = 1, TaskName = ''a'', StartTime = 0, EndTime = None,
                       DurationSeconds = 0\<rparr>],
       sqlite_sequence = 1, faults = [False, True]\<rparr>"
    by (simp add: timer_tracks_def active_slots_def IsActive_def)
  show ?thesis
    using h1 h2 at_most_one_active [OF h1 h2, of 3
       "[StartCall ''b'' 5 6, StartCall ''c'' 7 8, StopCall 9, StartCall ''d'' 10 11]",
       THEN conjunct1]
    by simp
qed

text \<open>
  Claim C1 as stated asks only that the store hold at most one active slot at the start.
  A timer that holds no slot while the store has an active one (a slot reopened by
  \<open>UpdateTimeSlot\<close> with no end time, or a timer that has not run \<open>LoadActiveSlot\<close>)
  starts a second active slot: \<open>Start\<close> closes the slot the timer holds, not the slots
  of the store.
\<close>

theorem start_untracked_counterexample:
  "length (active_slots
      \<lparr>time_slots = [\<lparr>ID = 1, TaskName = ''a'', StartTime = 0, EndTime = None,
                       DurationSeconds = 0\<rparr>],
       sqlite_sequence = 1, faults = []\<rparr>) \<le> 1 \<and>
   length (active_slots (snd (exec_calls
      (NewTimer,
       \<lparr>time_slots = [\<lparr>ID = 1, TaskName = ''a'', StartTime = 0, EndTime = None,
                        DurationSeconds = 0\<rparr>],
        sqlite_sequence = 1, faults = []\<rparr>)
      [StartCall ''b'' 5 6]))) = 2"
  by (simp add: active_slots_def exec_calls_def NewTimer_def Start_def CreateTimeSlot_def
        sql_insert_def engine_fault_def IsActive_def)

section \<open>Failures and no-ops\<close>

text \<open>
  Claim C5. When \<open>Start\<close> finds an active slot in the timer and the implicit
  \<open>StopTimeSlot\<close> fails, \<open>Start\<close> returns that error, the table is as it was (no slot
  is created) and the timer is unchanged: it still holds the prior slot as active.
\<close>

theorem Start_implicit_stop_fails:
  assumes "activeSlot t = Some s" and "IsActive s"
    and "StopTimeSlot db (ID s) now1 = (Inl err, db1)"
  shows "Start t taskName db now1 now2 = (Inl err, t, db1) \<and>
         time_slots db1 = time_slots db \<and>
         sqlite_sequence db1 = sqlite_sequence db"
  using assms StopTimeSlot_Inl [OF assms(3)] by (simp add: Start_def)

theorem Start_implicit_stop_fails_witness:
  "Start \<lparr>activeSlot = Some \<lparr>ID = 1, TaskName = ''a'', StartTime = 0, EndTime = None,
                               DurationSeconds = 0\<rparr>,
          isRunning = True, startTime = 0, notifyChannel = []\<rparr>
         ''b''
         \<lparr>time_slots = [\<lparr>ID = 1, TaskName = ''a'', StartTime = 0, EndTime = None,
                          DurationSeconds = 0\<rparr>],
          sqlite_sequence = 1, faults = [False, True]\<rparr> 5 6 =
     (Inl (Errorf ''failed to stop time slot'' ErrEngine),
      \<lparr>activeSlot = Some \<lparr>ID = 1, TaskName = ''a'', StartTime = 0, EndTime = None,
                            DurationSeconds = 0\<rparr>,
       isRunning = True, startTime = 0, notifyChannel = []\<rparr>,
      \<lparr>time_slots = [\<lparr>ID = 1, TaskName = ''a'', StartTime = 0, EndTime = None,
                       DurationSeconds = 0\<rparr>],
       sqlite_sequence = 1, faults = []\<rparr>)"
proof -
  have h3: "StopTimeSlot
         \<lparr>time_slots = [\<lparr>ID = 1, TaskName = ''a'', StartTime = 0, EndTime = None,
                          DurationSeconds = 0\<rparr>],
          sqlite_sequence = 1, faults = [False, True]\<rparr>
         (ID \<lparr>ID = 1, TaskName = ''a'', StartTime = 0, EndTime = None,
              DurationSeconds = 0\<rparr>) 5 =
       (Inl (Errorf ''failed to stop time slot'' ErrEngine),
        \<lparr>time_slots = [\<lparr>ID = 1, TaskName = ''a'', StartTime = 0, EndTime = None,
                         DurationSeconds = 0\<rparr>],
         sqlite_sequence = 1, faults = []\<rparr>)"
    by (simp add: StopTimeSlot_def sql_select_start_time_def sql_update_def
          engine_fault_def Let_def)
  have h2: "IsActive \<lparr>ID = 1, TaskName = ''a'', StartTime = 0, EndTime = None,
                      DurationSeconds = 0\<rparr>"
    by (simp add: IsActive_def)
  show ?thesis
    using Start_implicit_stop_fails [OF _ h2 h3, of
        "\<lparr>activeSlot = Some \<lparr>ID = 1, TaskName = ''a'', StartTime = 0, EndTime = None,
                               DurationSeconds = 0\<rparr>,
          isRunning = True, startTime = 0, notifyChannel = []\<rparr>" "''b''" 6]
    by simp
qed

text \<open>
  Claim C9. \<open>Stop\<close> on a timer that holds no active slot returns \<open>(nil, nil)\<close> and
  leaves the timer and the store exactly as they were.
\<close>

theorem Stop_idle_noop:
  "activeSlot t = None \<or> (\<exists>s. activeSlot t = Some s \<and> \<not> IsActive s) \<Longrightarrow>
     Stop t db now = (Inr None, t, db)"
  by (auto simp: Stop_def)

theorem Stop_idle_noop_witness:
  "(activeSlot NewTimer = None \<or> (\<exists>s. activeSlot NewTimer = Some s \<and> \<not> IsActive s)) \<and>
   Stop NewTimer
        \<lparr>time_slots = [\<lparr>ID = 1, TaskName = ''a'', StartTime = 0, EndTime = Some 4,
                         DurationSeconds = 0\<rparr>],
         sqlite_sequence = 1, faults = [True]\<rparr> 5 =
     (Inr None, NewTimer,
      \<lparr>time_slots = [\<lparr>ID = 1, TaskName = ''a'', StartTime = 0, EndTime = Some 4,
                       DurationSeconds = 0\<rparr>],
       sqlite_sequence = 1, faults = [True]\<rparr>)"
proof -
  have h: "activeSlot NewTimer = None \<or> (\<exists>s. activeSlot NewTimer = Some s \<and> \<not> IsActive s)"
    by (simp add: NewTimer_def)
  show ?thesis using h Stop_idle_noop [OF h] by simp
qed

text \<open>
  Claim C10. \<open>App.StartTimer\<close> with the empty task name returns \<open>(nil, nil)\<close>; the
  store and the timer of the application are unchanged, so no slot is created.
\<close>

theorem StartTimer_empty_name:
  "StartTimer a [] now1 now2 = (Inr None, a)"
  by (simp add: StartTimer_def)

section \<open>Durations\<close>

lemma Sub_exact:
  "minDuration \<le> t - u \<Longrightarrow> t - u \<le> maxDuration \<Longrightarrow> Sub t u = t - u"
  by (simp add: Sub_def)

subsection \<open>Rounding to binary64\<close>

lemma rhe_err: "\<bar>of_int (round_half_even t) - t\<bar> \<le> 1 / 2"
proof -
  have "of_int \<lfloor>t\<rfloor> \<le> t" "t < of_int \<lfloor>t\<rfloor> + 1" by linarith+
  then show ?thesis by (auto simp: round_half_even_def Let_def)
qed

lemma rhe_ge: "of_int n \<le> t \<Longrightarrow> n \<le> round_half_even t"
proof -
  assume "of_int n \<le> t"
  then have "n \<le> \<lfloor>t\<rfloor>" by (simp add: le_floor_iff)
  then show ?thesis by (auto simp: round_half_even_def Let_def)
qed

lemma rhe_le: "t \<le> of_int n \<Longrightarrow> round_half_even t \<le> n"
proof -
  assume a: "t \<le> of_int n"
  show ?thesis
  proof (cases "t = of_int n")
    case True
    then show ?thesis by (simp add: round_half_even_def Let_def)
  next
    case False
    with a have "t < of_int n" by simp
    then have "\<lfloor>t\<rfloor> < n" by (simp add: floor_less_iff)
    then show ?thesis by (auto simp: round_half_even_def Let_def)
  qed
qed

lemma rhe_int [simp]: "round_half_even (of_int n) = n"
  by (simp add: round_half_even_def Let_def)

lemma rhe_nonneg: "0 \<le> t \<Longrightarrow> 0 \<le> round_half_even t"
  using rhe_ge [of 0 t] by simp

lemma exponent_upper:
  "x < power_int 2 (j + 53) \<Longrightarrow> s \<le> j \<Longrightarrow> float64_exponent x s \<le> j"
proof (induction "nat (j - s)" arbitrary: s)
  case 0
  then have "s = j" by simp
  with 0 show ?case by (simp add: float64_exponent.simps)
next
  case (Suc n)
  show ?case
  proof (cases "971 \<le> s \<or> x < power_int 2 (s + 53)")
    case True
    then show ?thesis using Suc.prems by (simp add: float64_exponent.simps)
  next
    case False
    then have "float64_exponent x s = float64_exponent x (s + 1)"
      by (simp add: float64_exponent.simps)
    moreover have "float64_exponent x (s + 1) \<le> j"
      using Suc by (intro Suc.hyps(1)) auto
    ultimately show ?thesis by simp
  qed
qed

lemma exponent_lower: "s \<le> float64_exponent x s"
proof (induction x s rule: float64_exponent.induct)
  case (1 x e)
  show ?case
  proof (cases "971 \<le> e \<or> x < power_int 2 (e + 53)")
    case True
    then show ?thesis by (simp add: float64_exponent.simps)
  next
    case False
    with 1 have "e + 1 \<le> float64_exponent x (e + 1)" by simp
    moreover from False have "float64_exponent x e = float64_exponent x (e + 1)"
      by (simp add: float64_exponent.simps)
    ultimately show ?thesis by simp
  qed
qed

lemma exponent_eq:
  assumes "power_int 2 (e + 52) \<le> x" and "x < power_int 2 (e + 53)"
    and "s \<le> e" and "e \<le> 971"
  shows "float64_exponent x s = e"
  using assms(3)
proof (induction "nat (e - s)" arbitrary: s)
  case 0
  then have "s = e" by simp
  with assms(2) show ?case by (simp add: float64_exponent.simps)
next
  case (Suc n)
  then have lt: "s < e" by simp
  then have "(power_int 2 (s + 53) :: rat) \<le> power_int 2 (e + 52)"
    by (intro power_int_increasing) auto
  with assms(1) have "\<not> x < power_int 2 (s + 53)" by simp
  moreover have "\<not> 971 \<le> s" using lt assms(4) by simp
  ultimately have "float64_exponent x s = float64_exponent x (s + 1)"
    by (simp add: float64_exponent.simps)
  moreover have "float64_exponent x (s + 1) = e"
    using Suc lt by (intro Suc.hyps(1)) auto
  ultimately show ?case by simp
qed

lemma float64_pos:
  "0 < x \<Longrightarrow>
     float64 x =
       of_int (round_half_even (x / power_int 2 (float64_exponent x (- 1074)))) *
       power_int 2 (float64_exponent x (- 1074))"
  by (simp add: float64_def Let_def)

lemma float64_minus: "float64 (- x) = - float64 x"
  by (simp add: float64_def Let_def)

lemma float64_nonneg: "0 \<le> x \<Longrightarrow> 0 \<le> float64 x"
proof (cases "x = 0")
  case True
  then show ?thesis by (simp add: float64_def)
next
  case False
  assume "0 \<le> x"
  with False have pos: "0 < x" by simp
  have "0 \<le> x / power_int 2 (float64_exponent x (- 1074))"
    using pos by (simp add: zero_le_divide_iff)
  then have "0 \<le> round_half_even (x / power_int 2 (float64_exponent x (- 1074)))"
    by (rule rhe_nonneg)
  then show ?thesis using pos by (simp add: float64_pos)
qed

text \<open>For a value below \<open>2 ^ j\<close> with \<open>j \<le> 53\<close> the exponent is not positive.\<close>

lemma float64_scaled:
  assumes "0 < x" and "x < power_int 2 j" and "j \<le> 53" and "- 1021 \<le> j"
  obtains k :: nat where "int k \<ge> 53 - j"
    and "float64 x = of_int (round_half_even (x * 2 ^ k)) / 2 ^ k"
proof -
  define e where "e = float64_exponent x (- 1074)"
  have "x < power_int 2 ((j - 53) + 53)" using assms(2) by simp
  then have up: "e \<le> j - 53" unfolding e_def
    using assms(4) by (intro exponent_upper) auto
  define k where "k = nat (- e)"
  have e: "e = - int k" using up assms(3) by (simp add: k_def)
  have p: "(power_int 2 e :: rat) = 1 / 2 ^ k"
    unfolding e by (simp add: power_int_minus_divide)
  have "float64 x = of_int (round_half_even (x / power_int 2 e)) * power_int 2 e"
    using float64_pos [OF assms(1)] by (simp add: e_def)
  then have "float64 x = of_int (round_half_even (x * 2 ^ k)) / 2 ^ k"
    by (simp add: p)
  moreover have "int k \<ge> 53 - j" using up e by simp
  ultimately show ?thesis using that by blast
qed

lemma float64_of_int_exact:
  assumes "0 \<le> n" and "n < 2 ^ 53"
  shows "float64 (of_int n) = of_int n"
proof (cases "n = 0")
  case True
  then show ?thesis by (simp add: float64_def)
next
  case False
  with assms(1) have pos: "(0::rat) < of_int n" by simp
  have lt: "(of_int n :: rat) < power_int 2 53"
  proof -
    have "(of_int n :: rat) < of_int (2 ^ 53)" using assms(2) by (simp only: of_int_less_iff)
    then show ?thesis by simp
  qed
  from float64_scaled [OF pos lt] obtain k :: nat where
    k: "float64 (of_int n) = of_int (round_half_even (of_int n * 2 ^ k)) / 2 ^ k"
    by auto
  have "(of_int n * 2 ^ k :: rat) = of_int (n * 2 ^ k)" by simp
  then have "round_half_even (of_int n * 2 ^ k) = n * 2 ^ k"
    by (simp only: rhe_int)
  with k show ?thesis by simp
qed

lemma float64_err:
  assumes "0 < x" and "x < power_int 2 j" and "j \<le> 53" and "- 1021 \<le> j"
  shows "\<bar>float64 x - x\<bar> \<le> power_int 2 (j - 54)"
proof -
  from float64_scaled [OF assms] obtain k :: nat where
    k: "int k \<ge> 53 - j" and
    f: "float64 x = of_int (round_half_even (x * 2 ^ k)) / 2 ^ k"
    by auto
  have "float64 x - x = (of_int (round_half_even (x * 2 ^ k)) - x * 2 ^ k) / 2 ^ k"
    by (simp add: f diff_divide_distrib)
  then have "\<bar>float64 x - x\<bar> = \<bar>of_int (round_half_even (x * 2 ^ k)) - x * 2 ^ k\<bar> / 2 ^ k"
    by (simp add: abs_divide)
  also have "\<dots> \<le> (1 / 2) / 2 ^ k"
    by (intro divide_right_mono rhe_err) simp
  also have "\<dots> = power_int 2 (- int k - 1)"
    by (simp add: power_int_diff power_int_minus_divide)
  also have "\<dots> \<le> power_int 2 (j - 54)"
    using k by (intro power_int_increasing) auto
  finally show ?thesis .
qed

text \<open>The sum of a whole number and a fraction that is not too close to 1.\<close>

lemma floor_float64_sum:
  assumes "0 \<le> s" and "0 \<le> q" and "q < 1 - power_int 2 (j - 54)"
    and "of_int s + 1 \<le> (power_int 2 j :: rat)" and "j \<le> 53" and "- 1021 \<le> j"
  shows "\<lfloor>float64 (of_int s + q)\<rfloor> = s"
proof (cases "of_int s + q = 0")
  case True
  with assms(1,2) have "s = 0"
    by (smt (verit, best) of_int_0_le_iff of_int_eq_0_iff add_nonneg_eq_0_iff)
  with True show ?thesis by (simp add: float64_def)
next
  case False
  define x where "x = of_int s + q"
  have pos: "0 < x" using False assms(1,2) by (simp add: x_def add_nonneg_nonneg less_le)
  have p0: "(0::rat) < power_int 2 (j - 54)" by (simp add: zero_less_power_int)
  have lt: "x < power_int 2 j" using assms(3,4) p0 unfolding x_def by linarith
  from float64_scaled [OF pos lt assms(5,6)] obtain k :: nat where
    k: "int k \<ge> 53 - j" and
    f: "float64 x = of_int (round_half_even (x * 2 ^ k)) / 2 ^ k"
    by auto
  let ?K = "2 ^ k :: int"
  let ?m = "round_half_even (x * 2 ^ k)"
  have K: "(2 ^ k :: rat) = of_int ?K" by simp
  have lo: "s * ?K \<le> ?m"
  proof (rule rhe_ge)
    have "of_int s * (2 ^ k :: rat) \<le> x * 2 ^ k"
      using assms(2) by (simp add: x_def)
    then show "(of_int (s * ?K) :: rat) \<le> x * 2 ^ k" by simp
  qed
  have half: "(1 / 2 :: rat) \<le> power_int 2 (j - 54) * 2 ^ k"
  proof -
    have "(power_int 2 (- 1) :: rat) \<le> power_int 2 ((j - 54) + int k)"
      using k by (intro power_int_increasing) auto
    also have "\<dots> = power_int 2 (j - 54) * power_int 2 (int k)"
      by (rule power_int_add) simp
    finally show ?thesis by simp
  qed
  have "x * 2 ^ k < (of_int s + 1 - power_int 2 (j - 54)) * 2 ^ k"
    using assms(3) by (simp add: x_def)
  also have "\<dots> = (of_int s + 1) * 2 ^ k - power_int 2 (j - 54) * 2 ^ k"
    by (simp add: algebra_simps)
  also have "\<dots> \<le> (of_int s + 1) * 2 ^ k - 1 / 2" using half by simp
  finally have t: "x * 2 ^ k + 1 / 2 < (of_int s + 1) * 2 ^ k" by simp
  have "of_int ?m \<le> x * 2 ^ k + 1 / 2"
    using rhe_err [of "x * 2 ^ k"] by linarith
  with t have "(of_int ?m :: rat) < of_int ((s + 1) * ?K)" by simp
  then have hi: "?m < (s + 1) * ?K" by (simp only: of_int_less_iff)
  have "of_int s \<le> float64 x"
  proof -
    have "(of_int (s * ?K) :: rat) \<le> of_int ?m" using lo by (simp only: of_int_le_iff)
    then have "of_int s * (2 ^ k :: rat) \<le> of_int ?m" by simp
    then show ?thesis unfolding f by (simp add: pos_le_divide_eq)
  qed
  moreover have "float64 x < of_int s + 1"
  proof -
    have "(of_int ?m :: rat) < of_int ((s + 1) * ?K)" using hi by (simp only: of_int_less_iff)
    then have "(of_int ?m :: rat) < (of_int s + 1) * 2 ^ k" by simp
    then show ?thesis unfolding f by (simp add: pos_divide_less_eq)
  qed
  ultimately show ?thesis unfolding x_def by (simp add: floor_unique)
qed

lemma Seconds_minus: "Seconds (- d) = - Seconds d"
proof -
  have pos: "Seconds (- d) = - Seconds d" if "0 < d" for d
  proof -
    have "Seconds (- d) =
        float64 (float64 (of_int (- (d div Second))) +
                 float64 (float64 (of_int (- (d - d div Second * Second))) / 1000000000))"
      using that by (simp add: Seconds_def Let_def)
    also have "\<dots> = - float64 (float64 (of_int (d div Second)) +
                 float64 (float64 (of_int (d - d div Second * Second)) / 1000000000))"
      by (simp only: of_int_minus float64_minus minus_divide_left [symmetric]
            minus_add_distrib [symmetric])
    also have "\<dots> = - Seconds d" using that by (simp add: Seconds_def Let_def)
    finally show ?thesis .
  qed
  consider "d = 0" | "0 < d" | "0 < - d" by linarith
  then show ?thesis
  proof cases
    case 1
    then show ?thesis by (simp add: Seconds_def Let_def float64_def)
  next
    case 2
    then show ?thesis by (rule pos)
  next
    case 3
    from pos [OF 3] show ?thesis by simp
  qed
qed

lemma int64_of_float64_minus: "int64_of_float64 (- x) = - int64_of_float64 x"
  by (auto simp: int64_of_float64_def ceiling_def)

lemma Seconds_int64_minus: "Seconds_int64 (- d) = - Seconds_int64 d"
  by (simp add: Seconds_int64_def Seconds_minus int64_of_float64_minus)

lemma Seconds_of_nonneg:
  assumes "0 \<le> d"
  shows "Seconds d =
     float64 (float64 (of_int (d div Second)) +
              float64 (float64 (of_int (d mod Second)) / 1000000000))"
proof -
  have "d - d div Second * Second = d mod Second" by (simp add: minus_div_mult_eq_mod)
  then show ?thesis unfolding Seconds_def Let_def using assms by (simp only: if_True)
qed

lemma Seconds_nonneg: "0 \<le> d \<Longrightarrow> 0 \<le> Seconds d"
proof -
  assume d: "0 \<le> d"
  have S: "0 < Second" by (simp add: Second_def)
  have "0 \<le> d div Second" using d S by (simp add: pos_imp_zdiv_nonneg_iff)
  moreover have "0 \<le> d mod Second" using S by simp
  ultimately show ?thesis unfolding Seconds_of_nonneg [OF d]
    by (intro float64_nonneg add_nonneg_nonneg divide_nonneg_nonneg) simp_all
qed

lemma Seconds_int64_nonneg: "0 \<le> d \<Longrightarrow> 0 \<le> Seconds_int64 d"
  using Seconds_nonneg [of d] by (simp add: Seconds_int64_def int64_of_float64_def)

lemma Seconds_int64_nonpos: "d \<le> 0 \<Longrightarrow> Seconds_int64 d \<le> 0"
  using Seconds_int64_nonneg [of "- d"] by (simp add: Seconds_int64_minus)

lemma fraction_bounds:
  assumes "0 \<le> n" and "n < 1000000000"
  shows "0 \<le> float64 (float64 (of_int n) / 1000000000)"
    and "float64 (float64 (of_int n) / 1000000000) \<le> of_int n / 1000000000 + power_int 2 (- 54)"
proof -
  have ex: "float64 (of_int n) = of_int n"
    using assms by (intro float64_of_int_exact) auto
  show "0 \<le> float64 (float64 (of_int n) / 1000000000)"
    using assms(1) by (simp add: ex float64_nonneg)
  show "float64 (float64 (of_int n) / 1000000000) \<le> of_int n / 1000000000 + power_int 2 (- 54)"
  proof (cases "n = 0")
    case True
    then show ?thesis by (simp add: float64_def)
  next
    case False
    let ?x = "of_int n / 1000000000 :: rat"
    have pos: "0 < ?x" using False assms(1) by simp
    have "(of_int n :: rat) < of_int 1000000000" using assms(2) by (simp only: of_int_less_iff)
    then have lt: "?x < power_int 2 0" by simp
    from float64_err [OF pos lt] have "\<bar>float64 ?x - ?x\<bar> \<le> power_int 2 (- 54)" by simp
    then show ?thesis unfolding ex by linarith
  qed
qed

lemma Seconds_int64_exact_gen:
  assumes "0 \<le> d" and "d div Second < 2 ^ j" and "j \<le> 53"
    and "of_int (d mod Second) / 1000000000 + power_int 2 (- 54) <
         (1 - power_int 2 (int j - 54) :: rat)"
  shows "Seconds_int64 d = d div Second"
proof -
  have S: "0 < Second" by (simp add: Second_def)
  define sec where "sec = d div Second"
  define nsec where "nsec = d mod Second"
  have sec0: "0 \<le> sec" using assms(1) S by (simp add: sec_def pos_imp_zdiv_nonneg_iff)
  have n0: "0 \<le> nsec" and n1: "nsec < 1000000000"
    using S by (simp_all add: nsec_def Second_def)
  have sec53: "sec < 2 ^ 53"
  proof -
    have "(2::int) ^ j \<le> 2 ^ 53" using assms(3) by (intro power_increasing) auto
    with assms(2) show ?thesis by (simp add: sec_def)
  qed
  define q where "q = float64 (float64 (of_int nsec) / 1000000000)"
  have q0: "0 \<le> q" and q1: "q \<le> of_int nsec / 1000000000 + power_int 2 (- 54)"
    using fraction_bounds [OF n0 n1] by (simp_all add: q_def)
  have q2: "q < 1 - power_int 2 (int j - 54)" using q1 assms(4) by (simp add: nsec_def)
  have "Seconds d = float64 (of_int sec + q)"
    unfolding Seconds_of_nonneg [OF assms(1)] q_def nsec_def
    using float64_of_int_exact [OF sec0 sec53] by (simp add: sec_def)
  moreover have "\<lfloor>float64 (of_int sec + q)\<rfloor> = sec"
  proof (rule floor_float64_sum [OF sec0 q0 q2])
    have "sec + 1 \<le> 2 ^ j" using assms(2) by (simp add: sec_def)
    then have "(of_int (sec + 1) :: rat) \<le> of_int (2 ^ j)" by (simp only: of_int_le_iff)
    then show "of_int sec + 1 \<le> (power_int 2 (int j) :: rat)" by simp
    show "int j \<le> 53" using assms(3) by simp
    show "- 1021 \<le> int j" by simp
  qed
  moreover have "0 \<le> Seconds d" using assms(1) by (rule Seconds_nonneg)
  ultimately show ?thesis by (simp add: Seconds_int64_def int64_of_float64_def sec_def)
qed

lemma Seconds_int64_exact_nonneg:
  assumes "0 \<le> d" and "d < 16777216 * Second"
  shows "Seconds_int64 d = d div Second"
proof (rule Seconds_int64_exact_gen [OF assms(1), of 24])
  have S: "0 < Second" by (simp add: Second_def)
  show "d div Second < 2 ^ 24" using assms(2) unfolding Second_def by simp
  show "24 \<le> (53::nat)" by simp
  have "d mod Second \<le> 999999999" using pos_mod_bound [OF S, of d] by (simp add: Second_def)
  then have "(of_int (d mod Second) :: rat) \<le> of_int 999999999" by (simp only: of_int_le_iff)
  then have "(of_int (d mod Second) :: rat) / 1000000000 \<le> 999999999 / 1000000000"
    by simp
  moreover have "(999999999 / 1000000000 :: rat) + power_int 2 (- 54) < 1 - power_int 2 (int 24 - 54)"
    by (simp add: power_int_minus_divide)
  ultimately show "of_int (d mod Second) / 1000000000 + power_int 2 (- 54) <
         (1 - power_int 2 (int 24 - 54) :: rat)" by linarith
qed

lemma Seconds_int64_exact:
  assumes "\<bar>d\<bar> < 16777216 * Second"
  shows "Seconds_int64 d = (if 0 \<le> d then d div Second else - ((- d) div Second))"
proof (cases "0 \<le> d")
  case True
  then show ?thesis using assms by (simp add: Seconds_int64_exact_nonneg)
next
  case False
  then have "Seconds_int64 (- d) = (- d) div Second"
    using assms by (intro Seconds_int64_exact_nonneg) auto
  then show ?thesis using False Seconds_int64_minus [of d] by simp
qed

lemma float64_at_exponent:
  assumes "power_int 2 (e + 52) \<le> x" and "x < power_int 2 (e + 53)"
    and "- 1074 \<le> e" and "e \<le> 971"
  shows "float64 x = of_int (round_half_even (x / power_int 2 e)) * power_int 2 e"
proof -
  have "(0::rat) < power_int 2 (e + 52)" by (simp add: zero_less_power_int)
  with assms(1) have pos: "0 < x" by linarith
  from exponent_eq [OF assms(1,2,3,4)] show ?thesis
    by (simp add: float64_pos [OF pos])
qed

lemma rhe_fraction:
  assumes "0 < b"
  shows "round_half_even (of_int a / of_int b) =
     (if 2 * (a mod b) < b then a div b
      else if b < 2 * (a mod b) then a div b + 1
      else if even (a div b) then a div b else a div b + 1)"
proof -
  define t :: rat where "t = of_int a / of_int b"
  have fl: "\<lfloor>t\<rfloor> = a div b" by (simp add: t_def floor_divide_of_int_eq)
  have "(of_int a :: rat) = of_int (a div b * b + a mod b)" by simp
  also have "\<dots> = of_int (a div b) * of_int b + of_int (a mod b)"
    by (simp only: of_int_add of_int_mult)
  finally have fr: "t - of_int (a div b) = of_int (a mod b) / of_int b"
    using assms by (simp add: t_def field_simps)
  have lt: "(of_int (a mod b) / of_int b :: rat) < 1 / 2 \<longleftrightarrow> 2 * (a mod b) < b"
  proof -
    have "(of_int (a mod b) / of_int b :: rat) < 1 / 2 \<longleftrightarrow>
          (of_int (2 * (a mod b)) :: rat) < of_int b"
      using assms by (simp add: field_simps)
    then show ?thesis by (simp only: of_int_less_iff)
  qed
  have gt: "(1 / 2 :: rat) < of_int (a mod b) / of_int b \<longleftrightarrow> b < 2 * (a mod b)"
  proof -
    have "(1 / 2 :: rat) < of_int (a mod b) / of_int b \<longleftrightarrow>
          (of_int b :: rat) < of_int (2 * (a mod b))"
      using assms by (simp add: field_simps)
    then show ?thesis by (simp only: of_int_less_iff)
  qed
  have "round_half_even t =
     (if t - of_int \<lfloor>t\<rfloor> < 1 / 2 then \<lfloor>t\<rfloor>
      else if 1 / 2 < t - of_int \<lfloor>t\<rfloor> then \<lfloor>t\<rfloor> + 1
      else if even \<lfloor>t\<rfloor> then \<lfloor>t\<rfloor> else \<lfloor>t\<rfloor> + 1)"
    by (simp add: round_half_even_def Let_def)
  also have "\<dots> =
     (if 2 * (a mod b) < b then a div b
      else if b < 2 * (a mod b) then a div b + 1
      else if even (a div b) then a div b else a div b + 1)"
    by (simp only: fl fr lt gt)
  finally show ?thesis by (simp only: t_def)
qed

lemma rhe_numeral:
  "round_half_even (numeral a / numeral b) =
     (if 2 * (numeral a mod numeral b) < (numeral b :: int) then numeral a div numeral b
      else if (numeral b :: int) < 2 * (numeral a mod numeral b) then numeral a div numeral b + 1
      else if even (numeral a div numeral b :: int) then numeral a div numeral b
      else numeral a div numeral b + 1)"
  using rhe_fraction [of "numeral b" "numeral a"] by simp

lemma Seconds_int64_rounds_up: "Seconds_int64 16777216999999999 = 16777217"
proof -
  have q: "float64 (999999999 / 1000000000) = 9007199245733793 / 9007199254740992"
    by (subst float64_at_exponent [of "- 53"])
       (simp_all add: rhe_numeral power_int_minus_divide)
  have n: "float64 999999999 = 999999999"
    using float64_of_int_exact [of 999999999] by simp
  have s: "float64 16777216 = 16777216"
    using float64_of_int_exact [of 16777216] by simp
  have x: "float64 (151115736459027892572065 / 9007199254740992) = 16777217"
    by (subst float64_at_exponent [of "- 28"])
       (simp_all add: rhe_numeral power_int_minus_divide)
  have "Seconds 16777216999999999 = 16777217"
    by (simp add: Seconds_of_nonneg Second_def) (simp add: n s q x)
  then show ?thesis by (simp add: Seconds_int64_def int64_of_float64_def)
qed

lemma Seconds_int64_bounds:
  assumes "0 \<le> d" and "d < 2 ^ 63"
  shows "d div Second \<le> Seconds_int64 d" and "Seconds_int64 d \<le> d div Second + 1"
proof -
  have S: "0 < Second" by (simp add: Second_def)
  define sec where "sec = d div Second"
  define nsec where "nsec = d mod Second"
  have sec0: "0 \<le> sec" using assms(1) S by (simp add: sec_def pos_imp_zdiv_nonneg_iff)
  have n0: "0 \<le> nsec" and n1: "nsec < 1000000000"
    using S by (simp_all add: nsec_def Second_def)
  have sec34: "sec < 2 ^ 34" using assms(2) unfolding sec_def Second_def by simp
  then have sec53: "sec < 2 ^ 53" by simp
  define q where "q = float64 (float64 (of_int nsec) / 1000000000)"
  have q0: "0 \<le> q" and q1: "q \<le> of_int nsec / 1000000000 + power_int 2 (- 54)"
    using fraction_bounds [OF n0 n1] by (simp_all add: q_def)
  have "(of_int nsec :: rat) \<le> of_int 999999999" using n1 by (simp only: of_int_le_iff)
  then have "(of_int nsec :: rat) / 1000000000 \<le> 999999999 / 1000000000" by simp
  moreover have "(999999999 / 1000000000 :: rat) + power_int 2 (- 54) < 1"
    by (simp add: power_int_minus_divide)
  ultimately have q2: "q < 1" using q1 by linarith
  define x where "x = of_int sec + q"
  have eq: "Seconds d = float64 x"
    unfolding Seconds_of_nonneg [OF assms(1)] q_def nsec_def x_def
    using float64_of_int_exact [OF sec0 sec53] by (simp add: sec_def)
  have fl: "of_int sec \<le> float64 x \<and> float64 x \<le> of_int sec + 1"
  proof (cases "x = 0")
    case True
    with sec0 q0 have "sec = 0"
      by (smt (verit, best) x_def of_int_0_le_iff of_int_eq_0_iff add_nonneg_eq_0_iff)
    with True show ?thesis by (simp add: float64_def)
  next
    case False
    have pos: "0 < x" using False sec0 q0 by (simp add: x_def add_nonneg_nonneg less_le)
    have "(of_int (sec + 1) :: rat) \<le> of_int (2 ^ 34)"
      using sec34 by (simp only: of_int_le_iff)
    then have lt: "x < power_int 2 34" using q2 by (simp add: x_def)
    from float64_scaled [OF pos lt] obtain k :: nat where
      f: "float64 x = of_int (round_half_even (x * 2 ^ k)) / 2 ^ k"
      by auto
    have "sec * 2 ^ k \<le> round_half_even (x * 2 ^ k)"
    proof (rule rhe_ge)
      have "of_int sec * (2 ^ k :: rat) \<le> x * 2 ^ k" using q0 by (simp add: x_def)
      then show "(of_int (sec * 2 ^ k) :: rat) \<le> x * 2 ^ k" by simp
    qed
    then have "(of_int (sec * 2 ^ k) :: rat) \<le> of_int (round_half_even (x * 2 ^ k))"
      by (simp only: of_int_le_iff)
    then have lo: "of_int sec \<le> float64 x" unfolding f by (simp add: pos_le_divide_eq)
    have "round_half_even (x * 2 ^ k) \<le> (sec + 1) * 2 ^ k"
    proof (rule rhe_le)
      have "x * (2 ^ k :: rat) \<le> (of_int sec + 1) * 2 ^ k" using q2 by (simp add: x_def)
      then show "x * 2 ^ k \<le> (of_int ((sec + 1) * 2 ^ k) :: rat)" by simp
    qed
    then have "(of_int (round_half_even (x * 2 ^ k)) :: rat) \<le> of_int ((sec + 1) * 2 ^ k)"
      by (simp only: of_int_le_iff)
    then have "float64 x \<le> of_int sec + 1" unfolding f by (simp add: pos_divide_le_eq)
    with lo show ?thesis by simp
  qed
  have nn: "0 \<le> Seconds d" using assms(1) by (rule Seconds_nonneg)
  show "d div Second \<le> Seconds_int64 d"
    using fl nn eq by (simp add: Seconds_int64_def int64_of_float64_def sec_def le_floor_iff)
  have "\<lfloor>float64 x\<rfloor> \<le> \<lfloor>(of_int (sec + 1) :: rat)\<rfloor>"
    using fl by (intro floor_mono) simp
  then show "Seconds_int64 d \<le> d div Second + 1"
    using nn eq by (simp add: Seconds_int64_def int64_of_float64_def sec_def)
qed

lemma Seconds_int64_maxDuration: "Seconds_int64 (2 ^ 63 - 1) = 9223372036"
proof -
  have "Seconds_int64 (2 ^ 63 - 1) = (2 ^ 63 - 1) div Second"
    by (rule Seconds_int64_exact_gen [of _ 34])
       (simp_all add: Second_def power_int_minus_divide)
  then show ?thesis by (simp add: Second_def)
qed

subsection \<open>Whole seconds of a difference of two times\<close>

lemma whole_seconds:
  assumes "0 \<le> t - u" and "t - u < 16777216 * Second"
  shows "Seconds_int64 (Sub t u) = (t - u) div Second"
proof -
  have "t - u \<le> maxDuration" using assms(2) by (simp add: maxDuration_def Second_def)
  moreover have "minDuration \<le> t - u" using assms(1) by (simp add: minDuration_def)
  ultimately have "Sub t u = t - u" by (simp add: Sub_exact)
  then show ?thesis using assms by (simp add: Seconds_int64_exact_nonneg)
qed

lemma whole_seconds_or_one_more:
  assumes "0 \<le> t - u" and "t - u \<le> maxDuration"
  shows "(t - u) div Second \<le> Seconds_int64 (Sub t u)"
    and "Seconds_int64 (Sub t u) \<le> (t - u) div Second + 1"
proof -
  have "minDuration \<le> t - u" using assms(1) by (simp add: minDuration_def)
  then have sub: "Sub t u = t - u" using assms(2) by (simp add: Sub_exact)
  have lt: "t - u < 2 ^ 63" using assms(2) by (simp add: maxDuration_def)
  show "(t - u) div Second \<le> Seconds_int64 (Sub t u)"
    unfolding sub using assms(1) lt by (rule Seconds_int64_bounds)
  show "Seconds_int64 (Sub t u) \<le> (t - u) div Second + 1"
    unfolding sub using assms(1) lt by (rule Seconds_int64_bounds)
qed

lemma whole_seconds_signed:
  assumes "\<bar>t - u\<bar> < 16777216 * Second"
  shows "Seconds_int64 (Sub t u) =
           (if u \<le> t then (t - u) div Second else - ((u - t) div Second))"
proof -
  have "t - u \<le> maxDuration" "minDuration \<le> t - u"
    using assms by (simp_all add: maxDuration_def minDuration_def Second_def)
  then have "Sub t u = t - u" by (simp add: Sub_exact)
  then show ?thesis using Seconds_int64_exact [OF assms] by simp
qed

text \<open>The greatest Duration, at which \<open>Sub\<close> saturates, is 9223372036 seconds.\<close>

lemma Seconds_int64_greatest: "Seconds_int64 9223372036854775807 = 9223372036"
  using Seconds_int64_maxDuration by simp

section \<open>Starting while a slot is running\<close>

text \<open>
  Claim C3, as the code has it. \<open>Start\<close> reads the clock twice: \<open>now1\<close> is the
  argument of the implicit \<open>StopTimeSlot\<close>, \<open>now2\<close> is read after it and is the start
  time of the new slot. When \<open>Start\<close> succeeds on a timer that holds the active slot
  \<open>b\<close>, the stored row \<open>B\<close> of that id is closed with end time \<open>now1\<close> and with
  duration \<open>int64(now1.Sub(start_time B).Seconds())\<close>; the new slot \<open>a\<close> starts at
  \<open>now2\<close>. That duration is the whole number of seconds in \<open>now1 - start_time B\<close>
  when the difference is not negative and below \<open>2 ^ 24\<close> seconds (194 days); up to
  the greatest Duration it is that number or, by the rounding of the float64 sum, one more.
\<close>

theorem Start_while_running:
  assumes "activeSlot t = Some b" and "IsActive b"
    and "Start t taskName db now1 now2 = (Inr (Some a), t', db')"
  shows "\<exists>B. find (\<lambda>r. ID r = ID b) (time_slots db) = Some B \<and>
             time_slots db' =
               map (\<lambda>r. if ID r = ID b
                         then r\<lparr>EndTime := Some now1,
                                DurationSeconds := Seconds_int64 (Sub now1 (StartTime B))\<rparr>
                         else r) (time_slots db) @ [a] \<and>
             a = \<lparr>ID = sqlite_sequence db + 1, TaskName = taskName, StartTime = now2,
                   EndTime = None, DurationSeconds = 0\<rparr> \<and>
             activeSlot t' = Some a \<and>
             (0 \<le> now1 - StartTime B \<and> now1 - StartTime B < 16777216 * Second \<longrightarrow>
                Seconds_int64 (Sub now1 (StartTime B)) = (now1 - StartTime B) div Second) \<and>
             (0 \<le> now1 - StartTime B \<and> now1 - StartTime B \<le> maxDuration \<longrightarrow>
                (now1 - StartTime B) div Second \<le> Seconds_int64 (Sub now1 (StartTime B)) \<and>
                Seconds_int64 (Sub now1 (StartTime B)) \<le> (now1 - StartTime B) div Second + 1)"
proof -
  obtain r1 db1 where st: "StopTimeSlot db (ID b) now1 = (r1, db1)"
    by (cases "StopTimeSlot db (ID b) now1")
  obtain r2 db2 where cr: "CreateTimeSlot db1 taskName now2 = (r2, db2)"
    by (cases "CreateTimeSlot db1 taskName now2")
  from assms st cr have r1: "r1 = Inr ()" and r2: "r2 = Inr a" and db': "db' = db2"
    and t': "activeSlot t' = Some a"
    by (auto simp: Start_def split: sum.splits)
  from StopTimeSlot_Inr [OF st [unfolded r1]] obtain B where
    B: "find (\<lambda>r. ID r = ID b) (time_slots db) = Some B"
       "time_slots db1 =
           map (\<lambda>x. if ID x = ID b
                     then x\<lparr>EndTime := Some now1,
                            DurationSeconds := Seconds_int64 (Sub now1 (StartTime B))\<rparr>
                     else x) (time_slots db)"
       "sqlite_sequence db1 = sqlite_sequence db"
    by (elim exE conjE)
  from CreateTimeSlot_Inr [OF cr [unfolded r2]] B(3) have
    a: "a = \<lparr>ID = sqlite_sequence db + 1, TaskName = taskName, StartTime = now2,
             EndTime = None, DurationSeconds = 0\<rparr>"
      "time_slots db2 = time_slots db1 @ [a]"
    by simp_all
  have exact: "0 \<le> now1 - StartTime B \<and> now1 - StartTime B < 16777216 * Second \<longrightarrow>
                Seconds_int64 (Sub now1 (StartTime B)) = (now1 - StartTime B) div Second"
    using whole_seconds by blast
  have near: "0 \<le> now1 - StartTime B \<and> now1 - StartTime B \<le> maxDuration \<longrightarrow>
                (now1 - StartTime B) div Second \<le> Seconds_int64 (Sub now1 (StartTime B)) \<and>
                Seconds_int64 (Sub now1 (StartTime B)) \<le> (now1 - StartTime B) div Second + 1"
    using whole_seconds_or_one_more by blast
  have ts: "time_slots db' =
               map (\<lambda>r. if ID r = ID b
                         then r\<lparr>EndTime := Some now1,
                                DurationSeconds := Seconds_int64 (Sub now1 (StartTime B))\<rparr>
                         else r) (time_slots db) @ [a]"
    using B(2) a(2) db' by simp
  show ?thesis
    by (intro exI [of _ B] conjI) (fact B(1) ts a(1) t' exact near)+
qed

theorem Start_while_running_witness:
  "\<exists>B. find (\<lambda>r. ID r = 1)
          [\<lparr>ID = 1, TaskName = ''B'', StartTime = 0, EndTime = None, DurationSeconds = 0\<rparr>] = Some B \<and>
        time_slots (snd (snd (Start
          \<lparr>activeSlot = Some \<lparr>ID = 1, TaskName = ''B'', StartTime = 0, EndTime = None,
                                DurationSeconds = 0\<rparr>,
           isRunning = True, startTime = 0, notifyChannel = [True]\<rparr>
          ''A''
          \<lparr>time_slots = [\<lparr>ID = 1, TaskName = ''B'', StartTime = 0, EndTime = None,
                           DurationSeconds = 0\<rparr>],
           sqlite_sequence = 1, faults = []\<rparr> 600000000000 600250000000))) =
        [B\<lparr>EndTime := Some 600000000000,
           DurationSeconds := Seconds_int64 (Sub 600000000000 (StartTime B))\<rparr>,
         \<lparr>ID = 2, TaskName = ''A'', StartTime = 600250000000, EndTime = None,
           DurationSeconds = 0\<rparr>] \<and>
        Seconds_int64 (Sub 600000000000 (StartTime B)) = 600"
proof -
  have h3: "Start
          \<lparr>activeSlot = Some \<lparr>ID = 1, TaskName = ''B'', StartTime = 0, EndTime = None,
                                DurationSeconds = 0\<rparr>,
           isRunning = True, startTime = 0, notifyChannel = [True]\<rparr>
          ''A''
          \<lparr>time_slots = [\<lparr>ID = 1, TaskName = ''B'', StartTime = 0, EndTime = None,
                           DurationSeconds = 0\<rparr>],
           sqlite_sequence = 1, faults = []\<rparr> 600000000000 600250000000 =
       (Inr (Some \<lparr>ID = 2, TaskName = ''A'', StartTime = 600250000000, EndTime = None,
                    DurationSeconds = 0\<rparr>),
        \<lparr>activeSlot = Some \<lparr>ID = 2, TaskName = ''A'', StartTime = 600250000000,
                              EndTime = None, DurationSeconds = 0\<rparr>,
         isRunning = True, startTime = 600250000000, notifyChannel = [True]\<rparr>,
        \<lparr>time_slots = [\<lparr>ID = 1, TaskName = ''B'', StartTime = 0,
                         EndTime = Some 600000000000, DurationSeconds = 600\<rparr>,
                       \<lparr>ID = 2, TaskName = ''A'', StartTime = 600250000000, EndTime = None,
                         DurationSeconds = 0\<rparr>],
         sqlite_sequence = 2, faults = []\<rparr>)"
    by (simp add: Start_def CreateTimeSlot_def StopTimeSlot_def
        sql_insert_def sql_select_start_time_def sql_update_def engine_fault_def
        IsActive_def Let_def Sub_def Seconds_int64_exact Second_def maxDuration_def
        minDuration_def try_send_def)
  have h2: "IsActive \<lparr>ID = 1, TaskName = ''B'', StartTime = 0, EndTime = None,
                      DurationSeconds = 0\<rparr>"
    by (simp add: IsActive_def)
  from Start_while_running [OF _ h2 h3] show ?thesis
    by (simp add: h3 Seconds_int64_exact Sub_def Second_def maxDuration_def minDuration_def)
qed

text \<open>
  Claim C3 as stated: the end time of the closed slot is the instant at which the new slot
  is created. With the second clock reading one nanosecond after the first, the closed slot
  ends at 600000000000 and the new slot starts at 600000000001.
\<close>

theorem Start_two_readings_counterexample:
  "Start
     \<lparr>activeSlot = Some \<lparr>ID = 1, TaskName = ''B'', StartTime = 0, EndTime = None,
                           DurationSeconds = 0\<rparr>,
      isRunning = True, startTime = 0, notifyChannel = [True]\<rparr>
     ''A''
     \<lparr>time_slots = [\<lparr>ID = 1, TaskName = ''B'', StartTime = 0, EndTime = None,
                      DurationSeconds = 0\<rparr>],
      sqlite_sequence = 1, faults = []\<rparr> 600000000000 600000000001 =
   (Inr (Some \<lparr>ID = 2, TaskName = ''A'', StartTime = 600000000001, EndTime = None,
                DurationSeconds = 0\<rparr>),
    \<lparr>activeSlot = Some \<lparr>ID = 2, TaskName = ''A'', StartTime = 600000000001,
                          EndTime = None, DurationSeconds = 0\<rparr>,
     isRunning = True, startTime = 600000000001, notifyChannel = [True]\<rparr>,
    \<lparr>time_slots = [\<lparr>ID = 1, TaskName = ''B'', StartTime = 0,
                     EndTime = Some 600000000000, DurationSeconds = 600\<rparr>,
                   \<lparr>ID = 2, TaskName = ''A'', StartTime = 600000000001, EndTime = None,
                     DurationSeconds = 0\<rparr>],
     sqlite_sequence = 2, faults = []\<rparr>)"
  by (simp add: Start_def CreateTimeSlot_def StopTimeSlot_def
        sql_insert_def sql_select_start_time_def sql_update_def engine_fault_def
        IsActive_def Let_def Sub_def Seconds_int64_exact Second_def maxDuration_def
        minDuration_def try_send_def)

section \<open>What Stop returns\<close>

text \<open>
  Claim C4, evaluated on the code. \<open>Start\<close> of the task ``writing'' at \<open>T0\<close> on an
  empty store, then \<open>Stop\<close> at \<open>T0\<close> plus 3600 seconds: the stored row is closed with
  that end time and a duration of 3600, but the slot that \<open>Stop\<close> returns is the one
  the timer cached at \<open>Start\<close>, with no end time and a duration of 0.
\<close>

theorem Stop_returns_cached_slot:
  "(case Start NewTimer ''writing'' \<lparr>time_slots = [], sqlite_sequence = 0, faults = []\<rparr> T0 T0 of
      (res1, t1, db1) \<Rightarrow>
        (case Stop t1 db1 (T0 + 3600 * Second) of
           (res2, t2, db2) \<Rightarrow>
             res1 = Inr (Some \<lparr>ID = 1, TaskName = ''writing'', StartTime = T0,
                                EndTime = None, DurationSeconds = 0\<rparr>) \<and>
             res2 = Inr (Some \<lparr>ID = 1, TaskName = ''writing'', StartTime = T0,
                                EndTime = None, DurationSeconds = 0\<rparr>) \<and>
             time_slots db2 = [\<lparr>ID = 1, TaskName = ''writing'', StartTime = T0,
                                 EndTime = Some (T0 + 3600 * Second),
                                 DurationSeconds = 3600\<rparr>]))"
  by (simp add: Start_def Stop_def NewTimer_def CreateTimeSlot_def StopTimeSlot_def
        sql_insert_def sql_select_start_time_def sql_update_def engine_fault_def
        IsActive_def Let_def Sub_def Seconds_int64_exact Second_def maxDuration_def
        minDuration_def)

section \<open>Recovery from the store\<close>

lemma latest_max:
  "rs \<noteq> [] \<Longrightarrow> \<exists>m. latest rs = Some m \<and> m \<in> set rs \<and> (\<forall>x\<in>set rs. StartTime x \<le> StartTime m)"
  by (induction rs) (fastforce split: option.splits)+

lemma GetActiveTimeSlot_ok:
  assumes "\<not> fst (engine_fault db)" and "active_slots db \<noteq> []"
  shows "\<exists>m. GetActiveTimeSlot db = (Inr (Some m), snd (engine_fault db)) \<and>
             m \<in> set (active_slots db) \<and>
             (\<forall>x\<in>set (active_slots db). StartTime x \<le> StartTime m)"
proof -
  obtain f d1 where ef: "engine_fault db = (f, d1)" by (cases "engine_fault db")
  with assms(1) have f: "f = False" by simp
  have ts: "time_slots d1 = time_slots db" using engine_fault_keeps [OF ef] by simp
  have sel: "filter (\<lambda>r. EndTime r = None) (time_slots d1) = active_slots db"
    by (simp add: active_slots_def ts IsActive_def [abs_def])
  from latest_max [OF assms(2)] obtain m where
    m: "latest (active_slots db) = Some m" "m \<in> set (active_slots db)"
       "\<forall>x\<in>set (active_slots db). StartTime x \<le> StartTime m" by blast
  have "GetActiveTimeSlot db = (Inr (Some m), d1)"
    by (simp add: GetActiveTimeSlot_def sql_select_def ef f sel m(1))
  with m ef show ?thesis by simp
qed

text \<open>
  Claim C6. When the store answers and holds an active slot \<open>r\<close> that no other active
  slot started after (in particular when \<open>r\<close> is the only active slot),
  \<open>LoadActiveSlot\<close> returns no error and leaves the timer running on an active slot of
  the store with start instant \<open>StartTime r\<close>; the elapsed time read 120 seconds after
  that instant is 120 seconds, and \<open>App.GetElapsedTime\<close> returns 120.
\<close>

theorem LoadActiveSlot_elapsed:
  assumes "\<not> fst (engine_fault db)"
    and "r \<in> set (active_slots db)"
    and "\<forall>x\<in>set (active_slots db). StartTime x \<le> StartTime r"
  shows "\<exists>slot db'.
           LoadActiveSlot t db =
             (Inr (), t\<lparr>activeSlot := Some slot, isRunning := True,
                        startTime := StartTime r\<rparr>, db') \<and>
           slot \<in> set (active_slots db) \<and> StartTime slot = StartTime r \<and>
           time_slots db' = time_slots db \<and>
           GetElapsedTime (t\<lparr>activeSlot := Some slot, isRunning := True,
                              startTime := StartTime r\<rparr>)
                          (StartTime r + 120 * Second) = 120 * Second \<and>
           App_GetElapsedTime
             \<lparr>database = db',
              timer = t\<lparr>activeSlot := Some slot, isRunning := True,
                         startTime := StartTime r\<rparr>\<rparr>
             (StartTime r + 120 * Second) = 120"
proof -
  from assms(2) have ne: "active_slots db \<noteq> []" by auto
  from GetActiveTimeSlot_ok [OF assms(1) ne] obtain m where
    m: "GetActiveTimeSlot db = (Inr (Some m), snd (engine_fault db))"
       "m \<in> set (active_slots db)"
       "\<forall>x\<in>set (active_slots db). StartTime x \<le> StartTime m" by blast
  from m(2,3) assms(2,3) have eq: "StartTime m = StartTime r" by (simp add: order_antisym)
  have keep: "time_slots (snd (engine_fault db)) = time_slots db"
    using engine_fault_keeps [of db "fst (engine_fault db)" "snd (engine_fault db)"] by simp
  have load: "LoadActiveSlot t db =
      (Inr (), t\<lparr>activeSlot := Some m, isRunning := True, startTime := StartTime r\<rparr>,
       snd (engine_fault db))"
    by (simp add: LoadActiveSlot_def m(1) eq)
  have el: "GetElapsedTime (t\<lparr>activeSlot := Some m, isRunning := True,
                              startTime := StartTime r\<rparr>)
                          (StartTime r + 120 * Second) = 120 * Second"
    by (simp add: GetElapsedTime_def Sub_def Second_def maxDuration_def minDuration_def)
  have "App_GetElapsedTime
             \<lparr>database = snd (engine_fault db),
              timer = t\<lparr>activeSlot := Some m, isRunning := True,
                         startTime := StartTime r\<rparr>\<rparr>
             (StartTime r + 120 * Second) = 120"
    unfolding App_GetElapsedTime_def by (simp add: el) (simp add: Seconds_int64_exact Second_def)
  with load m(2) eq keep el show ?thesis by blast
qed

theorem LoadActiveSlot_elapsed_witness:
  "\<exists>slot db'.
     LoadActiveSlot NewTimer
        \<lparr>time_slots = [\<lparr>ID = 1, TaskName = ''a'', StartTime = 1000, EndTime = Some 2000,
                         DurationSeconds = 0\<rparr>,
                       \<lparr>ID = 2, TaskName = ''b'', StartTime = 5000, EndTime = None,
                         DurationSeconds = 0\<rparr>],
         sqlite_sequence = 2, faults = []\<rparr> =
       (Inr (), NewTimer\<lparr>activeSlot := Some slot, isRunning := True, startTime := 5000\<rparr>, db') \<and>
     StartTime slot = 5000 \<and>
     GetElapsedTime (NewTimer\<lparr>activeSlot := Some slot, isRunning := True, startTime := 5000\<rparr>)
       (5000 + 120 * Second) = 120 * Second \<and>
     App_GetElapsedTime
       \<lparr>database = db',
        timer = NewTimer\<lparr>activeSlot := Some slot, isRunning := True, startTime := 5000\<rparr>\<rparr>
       (5000 + 120 * Second) = 120"
proof -
  have h1: "\<not> fst (engine_fault
        \<lparr>time_slots = [\<lparr>ID = 1, TaskName = ''a'', StartTime = 1000, EndTime = Some 2000,
                         DurationSeconds = 0\<rparr>,
                       \<lparr>ID = 2, TaskName = ''b'', StartTime = 5000, EndTime = None,
                         DurationSeconds = 0\<rparr>],
         sqlite_sequence = 2, faults = []\<rparr>)"
    by (simp add: engine_fault_def)
  have h2: "\<lparr>ID = 2, TaskName = ''b'', StartTime = 5000, EndTime = None, DurationSeconds = 0\<rparr>
      \<in> set (active_slots
        \<lparr>time_slots = [\<lparr>ID = 1, TaskName = ''a'', StartTime = 1000, EndTime = Some 2000,
                         DurationSeconds = 0\<rparr>,
                       \<lparr>ID = 2, TaskName = ''b'', StartTime = 5000, EndTime = None,
                         DurationSeconds = 0\<rparr>],
         sqlite_sequence = 2, faults = []\<rparr>)"
    by (simp add: active_slots_def IsActive_def)
  have h3: "\<forall>x\<in>set (active_slots
        \<lparr>time_slots = [\<lparr>ID = 1, TaskName = ''a'', StartTime = 1000, EndTime = Some 2000,
                         DurationSeconds = 0\<rparr>,
                       \<lparr>ID = 2, TaskName = ''b'', StartTime = 5000, EndTime = None,
                         DurationSeconds = 0\<rparr>],
         sqlite_sequence = 2, faults = []\<rparr>).
        StartTime x \<le> StartTime \<lparr>ID = 2, TaskName = ''b'', StartTime = 5000, EndTime = None,
                                   DurationSeconds = 0\<rparr>"
    by (simp add: active_slots_def IsActive_def)
  from LoadActiveSlot_elapsed [OF h1 h2 h3, of NewTimer] show ?thesis
    by (elim exE conjE) (simp, blast)
qed

section \<open>Manual edits\<close>

lemma sql_update_ok:
  assumes "\<not> fst (engine_fault db)"
  shows "sql_update db upd i =
       (Inr (), (snd (engine_fault db))
          \<lparr>time_slots := map (\<lambda>r. if ID r = i then upd r else r) (time_slots db)\<rparr>)"
proof -
  obtain f d1 where ef: "engine_fault db = (f, d1)" by (cases "engine_fault db")
  with assms have f: "f = False" by simp
  have "time_slots d1 = time_slots db" using engine_fault_keeps [OF ef] by simp
  then show ?thesis by (simp add: sql_update_def ef f)
qed

lemma UpdateTimeSlot_ok:
  "\<not> fst (engine_fault db) \<Longrightarrow>
     UpdateTimeSlot db i name s e =
       (Inr (), (snd (engine_fault db))
          \<lparr>time_slots :=
             map (\<lambda>r. if ID r = i
                       then r\<lparr>TaskName := name, StartTime := s, EndTime := e,
                              DurationSeconds :=
                                (case e of None \<Rightarrow> 0
                                 | Some e' \<Rightarrow> Seconds_int64 (Sub e' s))\<rparr>
                       else r) (time_slots db)\<rparr>)"
  by (simp add: UpdateTimeSlot_def Let_def sql_update_ok)

lemma UpdateTimeSlot_Inr:
  "UpdateTimeSlot db i name s e = (Inr u, db1) \<Longrightarrow>
     time_slots db1 =
             map (\<lambda>r. if ID r = i
                       then r\<lparr>TaskName := name, StartTime := s, EndTime := e,
                              DurationSeconds :=
                                (case e of None \<Rightarrow> 0
                                 | Some e' \<Rightarrow> Seconds_int64 (Sub e' s))\<rparr>
                       else r) (time_slots db)"
  by (auto simp: UpdateTimeSlot_def sql_update_def Let_def
           split: prod.splits bool.splits sum.splits dest!: engine_fault_keeps)

lemma Sub_nonpos: "e \<le> s \<Longrightarrow> Sub e s \<le> 0"
  by (auto simp: Sub_def maxDuration_def minDuration_def)

text \<open>
  Claim C2, as the code has it. Neither \<open>App.UpdateTimeSlot\<close> nor
  \<open>Database.UpdateTimeSlot\<close> compares the two times: with an end time that is not after
  the start time, and a store that answers, the update returns no error and overwrites
  the rows of that id with the given name and times and with a duration that is zero or
  negative. (The edit dialog of the front end refuses such an input before it calls.)
\<close>

theorem UpdateTimeSlot_end_not_after_start:
  assumes "parse startTimeStr = Inr s" and "endTimeStr \<noteq> []" and "parse endTimeStr = Inr e"
    and "e \<le> s" and "\<not> fst (engine_fault (database a))"
  shows "\<exists>db'. UpdateTimeSlot (database a) i name s (Some e) = (Inr (), db') \<and>
               App_UpdateTimeSlot parse a i name startTimeStr endTimeStr =
                 (Inr (), a\<lparr>database := db'\<rparr>) \<and>
               time_slots db' =
                 map (\<lambda>r. if ID r = i
                           then r\<lparr>TaskName := name, StartTime := s, EndTime := Some e,
                                  DurationSeconds := Seconds_int64 (Sub e s)\<rparr>
                           else r) (time_slots (database a)) \<and>
               Seconds_int64 (Sub e s) \<le> 0"
  using assms UpdateTimeSlot_ok [OF assms(5), of i name s "Some e"]
    Seconds_int64_nonpos [OF Sub_nonpos [OF assms(4)]]
  by (simp add: App_UpdateTimeSlot_def)

theorem UpdateTimeSlot_end_not_after_start_witness:
  "App_UpdateTimeSlot
     (\<lambda>x. if x = ''1970-01-01T02:00:00Z'' then Inr 7200000000000
          else if x = ''1970-01-01T01:00:00Z'' then Inr 3600000000000
          else Inl (ParseError x))
     \<lparr>database =
        \<lparr>time_slots = [\<lparr>ID = 1, TaskName = ''a'', StartTime = 0,
                         EndTime = Some 600000000000, DurationSeconds = 600\<rparr>],
         sqlite_sequence = 1, faults = []\<rparr>,
      timer = NewTimer\<rparr>
     1 ''b'' ''1970-01-01T02:00:00Z'' ''1970-01-01T01:00:00Z'' =
   (Inr (),
    \<lparr>database =
        \<lparr>time_slots = [\<lparr>ID = 1, TaskName = ''b'', StartTime = 7200000000000,
                         EndTime = Some 3600000000000, DurationSeconds = - 3600\<rparr>],
         sqlite_sequence = 1, faults = []\<rparr>,
      timer = NewTimer\<rparr>)"
proof -
  let ?parse = "\<lambda>x. if x = ''1970-01-01T02:00:00Z'' then Inr 7200000000000
          else if x = ''1970-01-01T01:00:00Z'' then Inr 3600000000000
          else Inl (ParseError x)"
  let ?a = "\<lparr>database =
        \<lparr>time_slots = [\<lparr>ID = 1, TaskName = ''a'', StartTime = 0,
                         EndTime = Some 600000000000, DurationSeconds = 600\<rparr>],
         sqlite_sequence = 1, faults = []\<rparr>,
      timer = NewTimer\<rparr>"
  have h1: "?parse ''1970-01-01T02:00:00Z'' = Inr 7200000000000" by simp
  have h2: "''1970-01-01T01:00:00Z'' \<noteq> []" by simp
  have h3: "?parse ''1970-01-01T01:00:00Z'' = Inr 3600000000000" by simp
  have h4: "(3600000000000::int) \<le> 7200000000000" by simp
  have h5: "\<not> fst (engine_fault (database ?a))" by (simp add: engine_fault_def)
  from UpdateTimeSlot_end_not_after_start [OF h1 h2 h3 h4 h5, of 1 "''b''"]
  show ?thesis
    by (elim exE conjE)
       (simp add: UpdateTimeSlot_def sql_update_def engine_fault_def Let_def Sub_def
          Seconds_int64_exact Second_def maxDuration_def minDuration_def)
qed

text \<open>
  Claim C2 as stated: the update fails and the record is unchanged. An update of slot 1 to
  start at 7200 s and end at 3600 s returns no error and stores a duration of -3600.
\<close>

theorem UpdateTimeSlot_no_validation_counterexample:
  "UpdateTimeSlot
     \<lparr>time_slots = [\<lparr>ID = 1, TaskName = ''a'', StartTime = 0,
                      EndTime = Some 600000000000, DurationSeconds = 600\<rparr>],
      sqlite_sequence = 1, faults = []\<rparr> 1 ''a'' 7200000000000 (Some 3600000000000) =
   (Inr (),
    \<lparr>time_slots = [\<lparr>ID = 1, TaskName = ''a'', StartTime = 7200000000000,
                      EndTime = Some 3600000000000, DurationSeconds = - 3600\<rparr>],
      sqlite_sequence = 1, faults = []\<rparr>)"
  by (simp add: UpdateTimeSlot_def sql_update_def engine_fault_def Let_def Sub_def
        Seconds_int64_exact Second_def maxDuration_def minDuration_def)

lemma sql_select_ok:
  assumes "\<not> fst (engine_fault db)"
  shows "sql_select db cond = (Inr (filter cond (time_slots db)), snd (engine_fault db))"
proof -
  obtain f d1 where ef: "engine_fault db = (f, d1)" by (cases "engine_fault db")
  with assms have f: "f = False" by simp
  have "time_slots d1 = time_slots db" using engine_fault_keeps [OF ef] by simp
  then show ?thesis by (simp add: sql_select_def ef f)
qed



lemma GetTimeSlotsByDate_ok:
  assumes "\<not> fst (engine_fault db)"
    and "list_all (scans lib) (filter (in_day lib date) (time_slots db))"
  shows "GetTimeSlotsByDate lib db date =
       (Inr (sort_key (stored_text lib) (filter (in_day lib date) (time_slots db))),
        snd (engine_fault db))"
proof -
  have "list_all (scans lib) (sort_key (stored_text lib) (filter (in_day lib date) (time_slots db)))"
    using assms(2) by (simp add: list_all_iff)
  then show ?thesis
    by (simp add: GetTimeSlotsByDate_def sql_select_ok [OF assms(1)] Let_def)
qed


text \<open>
  Claim C8, as the code has it. After a successful update of an existing id, a listing of
  a day that selects the slot and can scan the rows it selects returns a slot of that id,
  and every returned slot of that id has the given name, start time and end time, with the
  duration \<open>int64(e.Sub(s).Seconds())\<close>, or 0 with no end time, whatever was stored
  before. That duration is the whole seconds of \<open>e - s\<close>, truncated toward zero, when
  the difference is less than \<open>2 ^ 24\<close> seconds (194 days) either way; up to the
  greatest Duration it is that number or, by the rounding of the float64 sum, one more;
  beyond, \<open>Sub\<close> saturates.
\<close>

theorem update_read_back:
  assumes "UpdateTimeSlot db i name s e = (Inr (), db1)"
    and "\<exists>r\<in>set (time_slots db). ID r = i"
    and "\<not> fst (engine_fault db1)"
    and "\<forall>r\<in>set (time_slots db1). ID r = i \<longrightarrow> in_day lib date r"
    and "\<forall>r\<in>set (time_slots db1). in_day lib date r \<longrightarrow> scans lib r"
  shows "\<exists>slots db2.
           GetTimeSlotsByDate lib db1 date = (Inr slots, db2) \<and>
           (\<exists>r\<in>set slots. ID r = i) \<and>
           (\<forall>r\<in>set slots. ID r = i \<longrightarrow>
              TaskName r = name \<and> StartTime r = s \<and> EndTime r = e \<and>
              DurationSeconds r =
                (case e of None \<Rightarrow> 0 | Some e' \<Rightarrow> Seconds_int64 (Sub e' s))) \<and>
           (\<forall>e'. e = Some e' \<and> \<bar>e' - s\<bar> < 16777216 * Second \<longrightarrow>
              Seconds_int64 (Sub e' s) =
                (if s \<le> e' then (e' - s) div Second else - ((s - e') div Second))) \<and>
           (\<forall>e'. e = Some e' \<and> 0 \<le> e' - s \<and> e' - s \<le> maxDuration \<longrightarrow>
              (e' - s) div Second \<le> Seconds_int64 (Sub e' s) \<and>
              Seconds_int64 (Sub e' s) \<le> (e' - s) div Second + 1)"
proof -
  let ?upd = "\<lambda>r. r\<lparr>TaskName := name, StartTime := s, EndTime := e,
                       DurationSeconds :=
                         (case e of None \<Rightarrow> 0 | Some e' \<Rightarrow> Seconds_int64 (Sub e' s))\<rparr>"
  have rows: "time_slots db1 = map (\<lambda>r. if ID r = i then ?upd r else r) (time_slots db)"
    using UpdateTimeSlot_Inr [OF assms(1)] .
  let ?slots = "sort_key (stored_text lib) (filter (in_day lib date) (time_slots db1))"
  have "list_all (scans lib) (filter (in_day lib date) (time_slots db1))"
    using assms(5) by (simp add: list_all_iff)
  then have read: "GetTimeSlotsByDate lib db1 date = (Inr ?slots, snd (engine_fault db1))"
    using GetTimeSlotsByDate_ok [OF assms(3)] by blast
  have set_slots: "set ?slots = {r \<in> set (time_slots db1). in_day lib date r}" by simp
  from assms(2) obtain r0 where r0: "r0 \<in> set (time_slots db)" "ID r0 = i" by blast
  then have mem: "?upd r0 \<in> set (time_slots db1)" unfolding rows by force
  moreover have "ID (?upd r0) = i" using r0(2) by simp
  ultimately have "in_day lib date (?upd r0)" using assms(4) by blast
  with mem have "?upd r0 \<in> set ?slots" unfolding set_slots by blast
  then have ex: "\<exists>r\<in>set ?slots. ID r = i" using r0(2) by force
  have all: "\<forall>r\<in>set ?slots. ID r = i \<longrightarrow>
              TaskName r = name \<and> StartTime r = s \<and> EndTime r = e \<and>
              DurationSeconds r =
                (case e of None \<Rightarrow> 0 | Some e' \<Rightarrow> Seconds_int64 (Sub e' s))"
  proof (intro ballI impI)
    fix r
    assume "r \<in> set ?slots" and id: "ID r = i"
    then have "r \<in> (\<lambda>r. if ID r = i then ?upd r else r) ` set (time_slots db)"
      unfolding set_slots rows by simp
    then obtain x where x: "r = (if ID x = i then ?upd x else x)" by blast
    show "TaskName r = name \<and> StartTime r = s \<and> EndTime r = e \<and>
              DurationSeconds r =
                (case e of None \<Rightarrow> 0 | Some e' \<Rightarrow> Seconds_int64 (Sub e' s))"
    proof (cases "ID x = i")
      case True
      with x show ?thesis by simp
    next
      case False
      with x id show ?thesis by simp
    qed
  qed
  have exact: "\<forall>e'. e = Some e' \<and> \<bar>e' - s\<bar> < 16777216 * Second \<longrightarrow>
              Seconds_int64 (Sub e' s) =
                (if s \<le> e' then (e' - s) div Second else - ((s - e') div Second))"
    using whole_seconds_signed by blast
  have near: "\<forall>e'. e = Some e' \<and> 0 \<le> e' - s \<and> e' - s \<le> maxDuration \<longrightarrow>
              (e' - s) div Second \<le> Seconds_int64 (Sub e' s) \<and>
              Seconds_int64 (Sub e' s) \<le> (e' - s) div Second + 1"
    using whole_seconds_or_one_more by blast
  show ?thesis
    by (intro exI [of _ ?slots] exI [of _ "snd (engine_fault db1)"] conjI)
       (fact read ex all exact near)+
qed

theorem update_read_back_witness:
  "GetTimeSlotsByDate
     \<lparr>midnight = (\<lambda>t. t div 86400000000000 * 86400000000000),
      bound_text = (\<lambda>t. if t = 0 then ''1970-01-01 00:00:00 +0000 UTC''
                        else ''1970-01-02 00:00:00 +0000 UTC''),
      stored_text = (\<lambda>r. ''1970-01-01 00:00:01 +0000 UTC''),
      scans = (\<lambda>r. True)\<rparr>
     (snd (UpdateTimeSlot
       \<lparr>time_slots = [\<lparr>ID = 1, TaskName = ''a'', StartTime = 5,
                        EndTime = None, DurationSeconds = 77\<rparr>],
        sqlite_sequence = 1, faults = []\<rparr> 1 ''x'' 1000000000 (Some 4500000000)))
     1000000000 =
   (Inr [\<lparr>ID = 1, TaskName = ''x'', StartTime = 1000000000, EndTime = Some 4500000000,
          DurationSeconds = 3\<rparr>],
    \<lparr>time_slots = [\<lparr>ID = 1, TaskName = ''x'', StartTime = 1000000000,
                     EndTime = Some 4500000000, DurationSeconds = 3\<rparr>],
     sqlite_sequence = 1, faults = []\<rparr>)"
proof -
  let ?lib = "\<lparr>midnight = (\<lambda>t. t div 86400000000000 * 86400000000000),
      bound_text = (\<lambda>t. if t = 0 then ''1970-01-01 00:00:00 +0000 UTC''
                        else ''1970-01-02 00:00:00 +0000 UTC''),
      stored_text = (\<lambda>r :: TimeSlot. ''1970-01-01 00:00:01 +0000 UTC''),
      scans = (\<lambda>r :: TimeSlot. True)\<rparr>"
  let ?db = "\<lparr>time_slots = [\<lparr>ID = 1, TaskName = ''a'', StartTime = 5,
                      EndTime = None, DurationSeconds = 77\<rparr>],
      sqlite_sequence = 1, faults = []\<rparr>"
  let ?db1 = "\<lparr>time_slots = [\<lparr>ID = 1, TaskName = ''x'', StartTime = 1000000000,
                     EndTime = Some 4500000000, DurationSeconds = 3\<rparr>],
     sqlite_sequence = 1, faults = []\<rparr>"
  have h1: "UpdateTimeSlot ?db 1 ''x'' 1000000000 (Some 4500000000) = (Inr (), ?db1)"
    by (simp add: UpdateTimeSlot_def sql_update_def engine_fault_def Let_def Sub_def
        Seconds_int64_exact Second_def maxDuration_def minDuration_def)
  have h2: "\<exists>r\<in>set (time_slots ?db). ID r = 1" by simp
  have h3: "\<not> fst (engine_fault ?db1)" by (simp add: engine_fault_def)
  have h4: "\<forall>r\<in>set (time_slots ?db1). ID r = 1 \<longrightarrow> in_day ?lib 1000000000 r"
    by (simp add: in_day_def Let_def Hour_def Second_def)
  have h5: "\<forall>r\<in>set (time_slots ?db1). in_day ?lib 1000000000 r \<longrightarrow> scans ?lib r"
    by simp
  from update_read_back [OF h1 h2 h3 h4 h5] show ?thesis
    by (elim exE conjE)
       (simp add: h1 GetTimeSlotsByDate_def sql_select_def engine_fault_def in_day_def
          Let_def Hour_def Second_def)
qed

text \<open>
  Claim C8 as stated: the duration is \<open>e - s\<close> in whole seconds for every \<open>s\<close> and
  \<open>e\<close>. With the start at the epoch and the end 10000000000 seconds later
  (\<open>1970-01-01T00:00:00Z\<close> and \<open>2286-11-20T17:46:40Z\<close>), the difference exceeds the
  greatest Duration and the duration read back is 9223372036.
\<close>

theorem update_saturates_counterexample:
  "GetTimeSlotsByDate
     \<lparr>midnight = (\<lambda>t. t div 86400000000000 * 86400000000000),
      bound_text = (\<lambda>t. if t = 0 then ''1970-01-01 00:00:00 +0000 UTC''
                        else ''1970-01-02 00:00:00 +0000 UTC''),
      stored_text = (\<lambda>r. ''1970-01-01 00:00:00 +0000 UTC''),
      scans = (\<lambda>r. True)\<rparr>
     (snd (UpdateTimeSlot
       \<lparr>time_slots = [\<lparr>ID = 1, TaskName = ''a'', StartTime = 5,
                        EndTime = Some 600000000000, DurationSeconds = 600\<rparr>],
        sqlite_sequence = 1, faults = []\<rparr> 1 ''x'' 0 (Some 10000000000000000000)))
     0 =
   (Inr [\<lparr>ID = 1, TaskName = ''x'', StartTime = 0, EndTime = Some 10000000000000000000,
          DurationSeconds = 9223372036\<rparr>],
    \<lparr>time_slots = [\<lparr>ID = 1, TaskName = ''x'', StartTime = 0,
                     EndTime = Some 10000000000000000000, DurationSeconds = 9223372036\<rparr>],
     sqlite_sequence = 1, faults = []\<rparr>) \<and>
   (10000000000000000000 - 0) div Second = 10000000000"
  by (simp add: GetTimeSlotsByDate_def UpdateTimeSlot_def sql_update_def sql_select_def
        engine_fault_def Let_def Sub_def in_day_def Hour_def
        Seconds_int64_greatest Second_def maxDuration_def minDuration_def)

section \<open>Statistics of a day\<close>










end
